theory Spec2Isabelle
  imports
    Complex_Main
    "HOL-Library.Char_ord"
    "HOL-Library.List_Lexorder"
    "HOL-Library.Product_Lexorder"
begin

section \<open>Conventions of the embedding\<close>

text \<open>
  The development embeds \<^verbatim>\<open>valuation_engine.py\<close> and \<^verbatim>\<open>fuzzy_matcher.py\<close>.
  A Python \<^verbatim>\<open>str\<close> is a \<^typ>\<open>string\<close>; a \<^typ>\<open>char\<close> stands for a code point below 256, and
  strings are compared as Python compares them, code point by code point. A Python
  \<^verbatim>\<open>float\<close> is a \<^typ>\<open>real\<close>: rounding, infinities and NaN are outside the model.
  \<^verbatim>\<open>Optional[T]\<close> is \<^typ>\<open>'a option\<close>. Every exception the source can raise is a value of
  \<open>py_error\<close>, returned as \<open>Inl\<close>. A leading underscore of a Python name is dropped.
\<close>

datatype py_error =
  KeyError | IndexError | TypeError | AttributeError | ValueError | OverflowError
  | StatisticsError

section \<open>\<^verbatim>\<open>fuzzy_matcher.py\<close>: data\<close>

text \<open>The dictionary that \<^verbatim>\<open>find_best_fuzzy_match\<close> returns.\<close>

record FuzzyMatch =
  score :: real
  source :: string
  target :: string
  source_text :: "string option"

section \<open>\<^verbatim>\<open>valuation_engine.py\<close>: data\<close>

text \<open>
  \<^verbatim>\<open>ListingComp\<close>. The text fields are of a type parameter: the valuation engine reads them
  as the declared \<^verbatim>\<open>Optional[str]\<close>, the eBay fetcher stores whatever JSON value the response
  holds.
\<close>

record 'v ListingComp =
  title :: 'v
  price :: "real option"
  currency :: 'v
  url :: 'v
  image :: 'v
  source :: string

record MarketSummary =
  minimum :: "real option"
  maximum :: "real option"
  median :: "real option"
  currency :: "string option"
  sample_size :: int
  source :: string
  prices :: "real list"

record NormalizationResult =
  title :: string
  brand :: "string option"
  canonical_query :: string
  fuzzy_term :: "string option"
  fuzzy_score :: "real option"
  match_quality :: string

datatype icon = Orange_Circle | Yellow_Circle | Green_Circle

record ValuationResult =
  normalization :: NormalizationResult
  sold_summary :: MarketSummary
  active_summary :: "MarketSummary option"
  profit :: "real option"
  profit_currency :: "string option"
  profit_multiple :: "real option"
  confidence_label :: string
  confidence_icon :: icon
  item_price :: real
  item_currency :: string
  sold_comps :: "string option ListingComp list"
  active_listings :: "string option ListingComp list"

text \<open>
  The fetcher the engine is built with is any object with these three methods (the tests
  pass a stub); a method may raise. The normaliser is the engine's second collaborator.
\<close>

record MarketDataFetcher =
  fetcher_pick_global_id :: "string \<Rightarrow> string"
  fetcher_fetch_sold_comps ::
    "string \<Rightarrow> int \<Rightarrow> string \<Rightarrow> py_error + string option ListingComp list"
  fetcher_fetch_active_listings ::
    "string \<Rightarrow> int \<Rightarrow> string \<Rightarrow> py_error + string option ListingComp list"

record 'f ValuationEngine =
  fetcher :: "MarketDataFetcher option"
  normalizer ::
    "string option \<Rightarrow> string option \<Rightarrow> string option \<Rightarrow> 'f option \<Rightarrow> NormalizationResult"
  sold_limit :: int
  active_limit :: int
  low_variance_threshold :: real

section \<open>\<^verbatim>\<open>valuation_engine.py\<close>: summarising, profit and confidence\<close>

text \<open>\<^verbatim>\<open>MarketSummary(source=default_source)\<close>: every other field at its default.\<close>

definition empty_summary :: "string \<Rightarrow> MarketSummary" where
  "empty_summary default_source =
     \<lparr>minimum = None, maximum = None, median = None, currency = None, sample_size = 0,
      source = default_source, prices = []\<rparr>"

text \<open>\<^verbatim>\<open>statistics.median\<close>: sorts, raises on no data, averages the two middle values.\<close>

definition statistics_median :: "real list \<Rightarrow> py_error + real" where
  "statistics_median data =
     (let xs = sort data; n = length xs in
      if n = 0 then Inl StatisticsError
      else if n mod 2 = 1 then Inr (xs ! (n div 2))
      else Inr ((xs ! (n div 2 - 1) + xs ! (n div 2)) / 2))"

text \<open>\<^verbatim>\<open>statistics.pstdev\<close>: the square root of the population variance.\<close>

definition statistics_pstdev :: "real list \<Rightarrow> py_error + real" where
  "statistics_pstdev data =
     (let n = length data in
      if n = 0 then Inl StatisticsError
      else let mu = sum_list data / real n in
        Inr (sqrt (sum_list (map (\<lambda>x. (x - mu) ^ 2) data) / real n)))"

text \<open>The builtins \<^verbatim>\<open>min\<close> and \<^verbatim>\<open>max\<close> of a list: \<^verbatim>\<open>ValueError\<close> on the empty list.\<close>

definition py_min :: "real list \<Rightarrow> py_error + real" where
  "py_min xs = (case xs of [] \<Rightarrow> Inl ValueError | y # ys \<Rightarrow> Inr (fold min ys y))"

definition py_max :: "real list \<Rightarrow> py_error + real" where
  "py_max xs = (case xs of [] \<Rightarrow> Inl ValueError | y # ys \<Rightarrow> Inr (fold max ys y))"

text \<open>
  \<^verbatim>\<open>currency_groups.setdefault(c, []).append(p)\<close> on a dictionary that keeps the order in
  which its keys were inserted.
\<close>

fun group_add :: "(string \<times> real list) list \<Rightarrow> string \<Rightarrow> real \<Rightarrow> (string \<times> real list) list" where
  "group_add [] c p = [(c, [p])]"
| "group_add ((k, ps) # rest) c p =
     (if k = c then (k, ps @ [p]) # rest else (k, ps) # group_add rest c p)"

text \<open>The first loop of \<^verbatim>\<open>_summarize\<close>: listings without a price or a currency are skipped.\<close>

fun currency_groups ::
  "(string \<times> real list) list \<Rightarrow> string option ListingComp list \<Rightarrow> (string \<times> real list) list" where
  "currency_groups groups [] = groups"
| "currency_groups groups (listing # rest) =
     (case (price listing, ListingComp.currency listing) of
        (Some p, Some c) \<Rightarrow> currency_groups (group_add groups c p) rest
      | _ \<Rightarrow> currency_groups groups rest)"

text \<open>
  \<^verbatim>\<open>max(items, key=lambda item: len(item[1]))\<close>: the first item of greatest key, a later one
  replacing the best so far only when strictly greater.
\<close>

fun max_group :: "string \<times> real list \<Rightarrow> (string \<times> real list) list \<Rightarrow> string \<times> real list" where
  "max_group best [] = best"
| "max_group best (g # gs) =
     (if length (snd best) < length (snd g) then max_group g gs else max_group best gs)"

definition summarize :: "string option ListingComp list \<Rightarrow> string \<Rightarrow> py_error + MarketSummary" where
  "summarize listings default_source =
     (if listings = [] then Inr (empty_summary default_source)
      else (case currency_groups [] listings of
              [] \<Rightarrow> Inr (empty_summary default_source)
            | g # gs \<Rightarrow>
               (let (cur, ps) = max_group g gs; sorted_prices = sort ps in
                (case py_min sorted_prices of
                   Inl e \<Rightarrow> Inl e
                 | Inr lo \<Rightarrow>
                    (case py_max sorted_prices of
                       Inl e \<Rightarrow> Inl e
                     | Inr hi \<Rightarrow>
                        (case statistics_median sorted_prices of
                           Inl e \<Rightarrow> Inl e
                         | Inr med \<Rightarrow>
                             Inr \<lparr>minimum = Some lo, maximum = Some hi, median = Some med,
                                  currency = Some cur,
                                  sample_size = int (length sorted_prices),
                                  source = default_source, prices = sorted_prices\<rparr>))))))"

text \<open>The truth value of an \<^verbatim>\<open>Optional[str]\<close>: \<^verbatim>\<open>None\<close> and the empty string are false.\<close>

definition truthy_str :: "string option \<Rightarrow> bool" where
  "truthy_str s = (case s of None \<Rightarrow> False | Some x \<Rightarrow> x \<noteq> [])"

text \<open>\<^verbatim>\<open>_estimate_profit\<close>: the triple (profit, profit currency, profit multiple).\<close>

definition estimate_profit ::
  "MarketSummary \<Rightarrow> real \<Rightarrow> string \<Rightarrow> real option \<times> string option \<times> real option" where
  "estimate_profit summary price0 currency0 =
     (case median summary of
        None \<Rightarrow> (None, None, None)
      | Some med \<Rightarrow>
          if sample_size summary = 0 then (None, None, None)
          else if truthy_str (MarketSummary.currency summary)
                  \<and> MarketSummary.currency summary \<noteq> Some currency0
          then (None, MarketSummary.currency summary, None)
          else (Some (med - price0),
                (if truthy_str (MarketSummary.currency summary)
                 then MarketSummary.currency summary else Some currency0),
                (if 0 < price0 then Some (med / price0) else None)))"

text \<open>
  \<^verbatim>\<open>_has_low_variance\<close>, for the engine's \<^verbatim>\<open>low_variance_threshold\<close>. Both statistics are
  taken of at least two prices, where neither raises.
\<close>

definition has_low_variance :: "real \<Rightarrow> real list \<Rightarrow> py_error + bool" where
  "has_low_variance threshold ps =
     (if length ps < 2 then Inr True
      else (case statistics_median ps of
              Inl e \<Rightarrow> Inl e
            | Inr med \<Rightarrow>
                if med \<le> 0 then Inr False
                else (case statistics_pstdev ps of
                        Inl e \<Rightarrow> Inl e
                      | Inr deviation \<Rightarrow>
                          if deviation = 0 then Inr True
                          else Inr (deviation / med \<le> threshold))))"

text \<open>
  \<^verbatim>\<open>_score_confidence\<close>. \<^verbatim>\<open>fuzzy_score or 0\<close> is 0 for \<^verbatim>\<open>None\<close> and for a score of 0. The
  conjunction of the second test is evaluated left to right, so the variance is looked at
  only for a score of at least 90 and at least 8 comps.
\<close>

definition score_confidence ::
  "real \<Rightarrow> real option \<Rightarrow> MarketSummary \<Rightarrow> py_error + string \<times> icon" where
  "score_confidence threshold fuzzy summary =
     (let comps = sample_size summary in
      if comps < 4 then Inr (''Low'', Orange_Circle)
      else
        let score = (case fuzzy of None \<Rightarrow> 0 | Some x \<Rightarrow> x) in
        (case (if 90 \<le> score \<and> 8 \<le> comps then has_low_variance threshold (prices summary)
               else Inr False) of
           Inl e \<Rightarrow> Inl e
         | Inr high \<Rightarrow>
             if high then Inr (''High'', Green_Circle)
             else if (82 \<le> score \<and> score < 90) \<or> (4 \<le> comps \<and> comps \<le> 7)
               then Inr (''Medium'', Yellow_Circle)
             else if 8 \<le> comps then Inr (''Medium'', Yellow_Circle)
             else Inr (''Low'', Orange_Circle)))"

text \<open>
  \<^verbatim>\<open>evaluate\<close>. The two fetches happen only with a fetcher and a non-empty canonical query;
  the active listings are fetched only for a positive \<^verbatim>\<open>active_limit\<close>. An exception of a
  fetch or of a later step ends the evaluation.
\<close>

definition evaluate ::
  "'f ValuationEngine \<Rightarrow> string option \<Rightarrow> string option \<Rightarrow> real \<Rightarrow> string \<Rightarrow> string option
     \<Rightarrow> 'f option \<Rightarrow> py_error + ValuationResult" where
  "evaluate engine title0 brand0 price0 currency0 base_search_text fuzzy_result =
     (let norm = normalizer engine title0 brand0 base_search_text fuzzy_result in
      (case
        (case fetcher engine of
           Some f \<Rightarrow>
             if canonical_query norm \<noteq> [] then
               (let global_id = fetcher_pick_global_id f currency0 in
                case fetcher_fetch_sold_comps f (canonical_query norm) (sold_limit engine) global_id of
                  Inl e \<Rightarrow> Inl e
                | Inr sold \<Rightarrow>
                   (case summarize sold ''eBay sold'' of
                      Inl e \<Rightarrow> Inl e
                    | Inr ssum \<Rightarrow>
                        if 0 < active_limit engine then
                          (case fetcher_fetch_active_listings f (canonical_query norm)
                                  (active_limit engine) global_id of
                             Inl e \<Rightarrow> Inl e
                           | Inr active \<Rightarrow>
                              (case summarize active ''eBay active'' of
                                 Inl e \<Rightarrow> Inl e
                               | Inr asum \<Rightarrow> Inr (sold, active, ssum, Some asum)))
                        else Inr (sold, [], ssum, None)))
             else Inr ([], [], empty_summary ''eBay sold'', None)
         | None \<Rightarrow> Inr ([], [], empty_summary ''eBay sold'', None))
      of
        Inl e \<Rightarrow> Inl e
      | Inr (sold, active, ssum, asum) \<Rightarrow>
          (let (p, pc, pm) = estimate_profit ssum price0 currency0 in
           (case score_confidence (low_variance_threshold engine) (fuzzy_score norm) ssum of
              Inl e \<Rightarrow> Inl e
            | Inr (label, ic) \<Rightarrow>
                Inr \<lparr>normalization = norm, sold_summary = ssum, active_summary = asum,
                     profit = p, profit_currency = pc, profit_multiple = pm,
                     confidence_label = label, confidence_icon = ic,
                     item_price = price0, item_currency = currency0,
                     sold_comps = sold, active_listings = active\<rparr>))))"

subsection \<open>Sample data\<close>

text \<open>
  A sold comp priced at \<open>p\<close> in currency \<open>c\<close>, and an engine whose fetcher answers every
  sold query with the given comps and every active query with none.
\<close>

definition sold_comp :: "real \<Rightarrow> string \<Rightarrow> string option ListingComp" where
  "sold_comp p c =
     \<lparr>ListingComp.title = Some ''plate'', price = Some p, ListingComp.currency = Some c,
      url = None, image = None, ListingComp.source = ''eBay sold''\<rparr>"

definition stub_fetcher :: "string option ListingComp list \<Rightarrow> MarketDataFetcher" where
  "stub_fetcher comps =
     \<lparr>fetcher_pick_global_id = (\<lambda>c. ''EBAY-DE''),
      fetcher_fetch_sold_comps = (\<lambda>q l g. Inr comps),
      fetcher_fetch_active_listings = (\<lambda>q l g. Inr [])\<rparr>"

definition stub_normalizer ::
  "string option \<Rightarrow> string option \<Rightarrow> string option \<Rightarrow> unit option \<Rightarrow> NormalizationResult" where
  "stub_normalizer t b s f =
     \<lparr>title = ''plate'', brand = None, canonical_query = ''plate'', fuzzy_term = None,
      fuzzy_score = None, match_quality = ''unknown''\<rparr>"

definition stub_engine :: "string option ListingComp list \<Rightarrow> unit ValuationEngine" where
  "stub_engine comps =
     \<lparr>fetcher = Some (stub_fetcher comps), normalizer = stub_normalizer, sold_limit = 30,
      active_limit = 10, low_variance_threshold = 35 / 100\<rparr>"

text \<open>The summary of a single comp priced 40 whose currency is the empty string.\<close>

definition summary_40_no_code :: MarketSummary where
  "summary_40_no_code =
     \<lparr>minimum = Some 40, maximum = Some 40, median = Some 40, currency = Some [],
      sample_size = 1, source = ''eBay sold'', prices = [40]\<rparr>"

text \<open>The summary of two comps priced 40 and 60 whose currency is the empty string.\<close>

definition summary_50_no_code :: MarketSummary where
  "summary_50_no_code =
     \<lparr>minimum = Some 40, maximum = Some 60, median = Some 50, currency = Some [],
      sample_size = 2, source = ''eBay sold'', prices = [40, 60]\<rparr>"

section \<open>\<^verbatim>\<open>fuzzy_matcher.py\<close>: strings\<close>

text \<open>
  \<^verbatim>\<open>str.isspace\<close> on the code points below 256: the ASCII controls 9 to 13 and 28 to 31, the
  space, NEL and the no-break space.
\<close>

definition isspace :: "char \<Rightarrow> bool" where
  "isspace c \<longleftrightarrow>
     c \<in> {CHR 0x09, CHR 0x0A, CHR 0x0B, CHR 0x0C, CHR 0x0D, CHR 0x1C, CHR 0x1D, CHR 0x1E,
          CHR 0x1F, CHR 0x20, CHR 0x85, CHR 0xA0}"

text \<open>\<^verbatim>\<open>s.strip(chars)\<close> removes from both ends every character of the given set.\<close>

definition strip_chars :: "(char \<Rightarrow> bool) \<Rightarrow> string \<Rightarrow> string" where
  "strip_chars P s = rev (dropWhile P (rev (dropWhile P s)))"

text \<open>\<^verbatim>\<open>s.strip()\<close> removes white space.\<close>

definition strip :: "string \<Rightarrow> string" where
  "strip s = strip_chars isspace s"

text \<open>
  \<^verbatim>\<open>s.replace(old, new)\<close> for a non-empty \<^verbatim>\<open>old\<close>: the occurrences are replaced from the
  left, without overlap.
\<close>

fun replace :: "string \<Rightarrow> string \<Rightarrow> string \<Rightarrow> string" where
  "replace old new [] = []"
| "replace old new (c # cs) =
     (if old \<noteq> [] \<and> take (length old) (c # cs) = old
      then new @ replace old new (drop (length old - 1) cs)
      else c # replace old new cs)"

text \<open>
  \<^verbatim>\<open>s.split(sep, 1)\<close> where \<^verbatim>\<open>sep in s\<close>: the text before and after the first occurrence of
  \<^verbatim>\<open>sep\<close>; \<open>None\<close> where \<^verbatim>\<open>sep\<close> does not occur.
\<close>

fun partition_at :: "string \<Rightarrow> string \<Rightarrow> (string \<times> string) option" where
  "partition_at sep [] = None"
| "partition_at sep (c # cs) =
     (if take (length sep) (c # cs) = sep then Some ([], drop (length sep) (c # cs))
      else map_option (\<lambda>(a, b). (c # a, b)) (partition_at sep cs))"

text \<open>\<^verbatim>\<open>x or None\<close> and \<^verbatim>\<open>x or ""\<close> for strings.\<close>

definition or_none :: "string \<Rightarrow> string option" where
  "or_none s = (if s = [] then None else Some s)"

definition or_empty :: "string option \<Rightarrow> string" where
  "or_empty s = (case s of None \<Rightarrow> [] | Some x \<Rightarrow> x)"

section \<open>\<^verbatim>\<open>valuation_engine.py\<close>: the eBay fetcher\<close>

subsection \<open>JSON values and the Python operations on them\<close>

text \<open>
  What \<^verbatim>\<open>response.json()\<close> returns: a number without fraction or exponent is a Python
  \<^verbatim>\<open>int\<close>, of any size, every other number a \<^verbatim>\<open>float\<close>; a dictionary is the list of its
  items, its keys distinct.
\<close>

datatype json =
  JNull | JBool bool | JInt int | JFloat real | JStr string | JList "json list"
  | JObj "(string \<times> json) list"

text \<open>Sequencing of steps that may raise.\<close>

definition py_bind :: "py_error + 'a \<Rightarrow> ('a \<Rightarrow> py_error + 'b) \<Rightarrow> py_error + 'b" where
  "py_bind m f = (case m of Inl e \<Rightarrow> Inl e | Inr x \<Rightarrow> f x)"

text \<open>The truth value of a Python object.\<close>

fun truthy :: "json \<Rightarrow> bool" where
  "truthy JNull = False"
| "truthy (JBool b) = b"
| "truthy (JInt i) = (i \<noteq> 0)"
| "truthy (JFloat x) = (x \<noteq> 0)"
| "truthy (JStr s) = (s \<noteq> [])"
| "truthy (JList xs) = (xs \<noteq> [])"
| "truthy (JObj kvs) = (kvs \<noteq> [])"

text \<open>\<^verbatim>\<open>obj.get(key, default)\<close>: only a dictionary has the method.\<close>

fun py_get :: "json \<Rightarrow> string \<Rightarrow> json \<Rightarrow> py_error + json" where
  "py_get (JObj kvs) key dflt = Inr (case map_of kvs key of Some v \<Rightarrow> v | None \<Rightarrow> dflt)"
| "py_get _ key dflt = Inl AttributeError"

text \<open>
  \<^verbatim>\<open>obj[0]\<close>: the first element of a list, the first character of a string; a dictionary
  from JSON has no key 0; a number, a truth value and \<^verbatim>\<open>None\<close> cannot be subscripted.
\<close>

fun py_index0 :: "json \<Rightarrow> py_error + json" where
  "py_index0 (JList []) = Inl IndexError"
| "py_index0 (JList (x # xs)) = Inr x"
| "py_index0 (JStr []) = Inl IndexError"
| "py_index0 (JStr (c # cs)) = Inr (JStr [c])"
| "py_index0 (JObj kvs) = Inl KeyError"
| "py_index0 _ = Inl TypeError"

text \<open>\<^verbatim>\<open>obj[key]\<close> for a string key.\<close>

fun py_item :: "json \<Rightarrow> string \<Rightarrow> py_error + json" where
  "py_item (JObj kvs) key = (case map_of kvs key of Some v \<Rightarrow> Inr v | None \<Rightarrow> Inl KeyError)"
| "py_item _ key = Inl TypeError"

text \<open>
  \<^verbatim>\<open>for item in obj\<close>: the elements of a list, the keys of a dictionary, the characters of
  a string.
\<close>

fun py_iter :: "json \<Rightarrow> py_error + json list" where
  "py_iter (JList xs) = Inr xs"
| "py_iter (JObj kvs) = Inr (map (\<lambda>kv. JStr (fst kv)) kvs)"
| "py_iter (JStr s) = Inr (map (\<lambda>c. JStr [c]) s)"
| "py_iter _ = Inl TypeError"

text \<open>
  The integers that \<^verbatim>\<open>float\<close> converts. The largest double is \<open>2 ^ 1024 - 2 ^ 971\<close>, and the
  conversion rounds to the nearest double, a tie to the even one: from \<open>2 ^ 1024 - 2 ^ 970\<close>
  on an integer rounds beyond the largest double, and \<^verbatim>\<open>float\<close> raises \<^verbatim>\<open>OverflowError\<close>.
\<close>

definition float_range :: "int \<Rightarrow> bool" where
  "float_range i \<longleftrightarrow> \<bar>i\<bar> < 2 ^ 1024 - 2 ^ 970"

text \<open>
  \<^verbatim>\<open>float(value)\<close>. How the builtin reads a string is the parameter \<open>parse\<close> (\<open>None\<close> where
  it raises \<^verbatim>\<open>ValueError\<close>).
\<close>

fun py_float :: "(string \<Rightarrow> real option) \<Rightarrow> json \<Rightarrow> py_error + real" where
  "py_float parse (JFloat x) = Inr x"
| "py_float parse (JInt i) = (if float_range i then Inr (of_int i) else Inl OverflowError)"
| "py_float parse (JBool b) = Inr (if b then 1 else 0)"
| "py_float parse (JStr s) = (case parse s of Some x \<Rightarrow> Inr x | None \<Rightarrow> Inl ValueError)"
| "py_float parse _ = Inl TypeError"

text \<open>\<^verbatim>\<open>str(n)\<close> of an integer.\<close>

definition digit_char :: "nat \<Rightarrow> char" where
  "digit_char d = ''0123456789'' ! d"

fun str_nat :: "nat \<Rightarrow> string" where
  "str_nat n = (if n < 10 then [digit_char n] else str_nat (n div 10) @ [digit_char (n mod 10)])"

definition str_int :: "int \<Rightarrow> string" where
  "str_int i = (if i < 0 then CHR ''-'' # str_nat (nat (- i)) else str_nat (nat i))"

subsection \<open>The fetcher\<close>

text \<open>
  The session answers a GET request (URL, parameters, timeout) with the decoded JSON body,
  or \<open>None\<close> where the request, the status check or the decoding raises.
\<close>

type_synonym request = "string \<times> (string \<times> string) list \<times> int"

record EbayMarketDataFetcher =
  app_id :: "string option"
  default_global_id :: string
  session :: "request \<Rightarrow> json option"
  timeout :: int

definition ENDPOINT :: string where
  "ENDPOINT = ''https://svcs.ebay.com/services/search/FindingService/v1''"

definition CURRENCY_TO_GLOBAL_ID :: "(string \<times> string) list" where
  "CURRENCY_TO_GLOBAL_ID =
     [(''EUR'', ''EBAY-DE''), (''USD'', ''EBAY-US''), (''GBP'', ''EBAY-GB''),
      (''CAD'', ''EBAY-ENCA''), (''AUD'', ''EBAY-AU''), (''CHF'', ''EBAY-CH'')]"

definition pick_global_id :: "EbayMarketDataFetcher \<Rightarrow> string option \<Rightarrow> string" where
  "pick_global_id self cur =
     (case cur of
        None \<Rightarrow> default_global_id self
      | Some c \<Rightarrow>
          (case map_of CURRENCY_TO_GLOBAL_ID c of
             Some g \<Rightarrow> if c \<noteq> [] then g else default_global_id self
           | None \<Rightarrow> default_global_id self))"

text \<open>
  \<^verbatim>\<open>_perform_request\<close>: the requests sent, and the body or the empty dictionary.
\<close>

definition perform_request ::
  "EbayMarketDataFetcher \<Rightarrow> (string \<times> string) list \<Rightarrow> request list \<times> json" where
  "perform_request self params =
     ([(ENDPOINT, params, timeout self)],
      (case session self (ENDPOINT, params, timeout self) of Some d \<Rightarrow> d | None \<Rightarrow> JObj []))"

text \<open>
  \<^verbatim>\<open>_extract_items\<close>: \<^verbatim>\<open>KeyError\<close>, \<^verbatim>\<open>IndexError\<close> and \<^verbatim>\<open>TypeError\<close> are caught, an
  \<^verbatim>\<open>AttributeError\<close> of a \<^verbatim>\<open>get\<close> is not.
\<close>

definition extract_items :: "json \<Rightarrow> string \<Rightarrow> py_error + json" where
  "extract_items data root_key =
     (case
        py_bind (py_item data root_key) (\<lambda>root.
        py_bind (py_index0 root) (\<lambda>response.
        py_bind (py_get response ''searchResult'' (JList [JObj []])) (\<lambda>results.
        py_bind (py_index0 results) (\<lambda>search_result.
        py_get search_result ''item'' (JList [])))))
      of
        Inl e \<Rightarrow> if e = KeyError \<or> e = IndexError \<or> e = TypeError then Inr (JList []) else Inl e
      | Inr items \<Rightarrow> Inr items)"

text \<open>
  \<^verbatim>\<open>_extract_price\<close>. The first \<^verbatim>\<open>try\<close> catches \<^verbatim>\<open>IndexError\<close> and \<^verbatim>\<open>TypeError\<close> only; the
  two \<^verbatim>\<open>get\<close> calls are guarded against \<^verbatim>\<open>AttributeError\<close>, the conversion against
  \<^verbatim>\<open>TypeError\<close> and \<^verbatim>\<open>ValueError\<close>.
\<close>

definition extract_price ::
  "(string \<Rightarrow> real option) \<Rightarrow> json \<Rightarrow> py_error + real option \<times> json" where
  "extract_price parse price_info =
     (if \<not> truthy price_info then Inr (None, JNull)
      else
        py_bind
          (case py_index0 price_info of
             Inl e \<Rightarrow> if e = IndexError \<or> e = TypeError then Inr price_info else Inl e
           | Inr first \<Rightarrow> Inr first)
          (\<lambda>info.
        py_bind
          (case py_get info ''__value__'' JNull of
             Inl e \<Rightarrow> if e = AttributeError then Inr JNull else Inl e
           | Inr v \<Rightarrow> Inr v)
          (\<lambda>val.
        py_bind
          (case py_get info ''@currencyId'' JNull of
             Inl e \<Rightarrow> if e = AttributeError then Inr JNull else Inl e
           | Inr c \<Rightarrow> Inr c)
          (\<lambda>cur.
        if val = JNull then Inr (None, cur)
        else
          (case py_float parse val of
             Inl e \<Rightarrow> if e = TypeError \<or> e = ValueError then Inr (None, cur) else Inl e
           | Inr x \<Rightarrow> Inr (Some x, cur))))))"

text \<open>The parameters of the two requests.\<close>

definition sold_params ::
  "string \<Rightarrow> string \<Rightarrow> int \<Rightarrow> string option \<Rightarrow> (string \<times> string) list" where
  "sold_params app query limit global_id =
     [(''OPERATION-NAME'', ''findCompletedItems''),
      (''SERVICE-VERSION'', ''1.13.0''),
      (''SECURITY-APPNAME'', app),
      (''RESPONSE-DATA-FORMAT'', ''JSON''),
      (''REST-PAYLOAD'', ''true''),
      (''keywords'', query),
      (''itemFilter(0).name'', ''SoldItemsOnly''),
      (''itemFilter(0).value'', ''true''),
      (''paginationInput.entriesPerPage'', str_int (max 1 (min limit 100))),
      (''sortOrder'', ''EndTimeSoonest'')]
     @ (if truthy_str global_id then [(''GLOBAL-ID'', or_empty global_id)] else [])"

definition active_params ::
  "string \<Rightarrow> string \<Rightarrow> int \<Rightarrow> string option \<Rightarrow> (string \<times> string) list" where
  "active_params app query limit global_id =
     [(''OPERATION-NAME'', ''findItemsAdvanced''),
      (''SERVICE-VERSION'', ''1.13.0''),
      (''SECURITY-APPNAME'', app),
      (''RESPONSE-DATA-FORMAT'', ''JSON''),
      (''REST-PAYLOAD'', ''true''),
      (''keywords'', query),
      (''paginationInput.entriesPerPage'', str_int (max 1 (min limit 100))),
      (''sortOrder'', ''PricePlusShippingLowest'')]
     @ (if truthy_str global_id then [(''GLOBAL-ID'', or_empty global_id)] else [])"

text \<open>
  What the two loops read of an item: the selling status, its price information
  (\<^verbatim>\<open>a or b\<close> is \<^verbatim>\<open>a\<close> where \<^verbatim>\<open>a\<close> is true and \<^verbatim>\<open>b\<close> otherwise), its selling state, and a
  field of the item.
\<close>

definition selling_status :: "json \<Rightarrow> py_error + json" where
  "selling_status item = py_bind (py_get item ''sellingStatus'' (JList [JObj []])) py_index0"

definition price_info :: "json \<Rightarrow> py_error + json" where
  "price_info status =
     py_bind (py_get status ''convertedCurrentPrice'' JNull) (\<lambda>converted.
     py_bind (py_get status ''currentPrice'' JNull) (\<lambda>current.
     Inr (if truthy converted then converted else current)))"

definition selling_state :: "json \<Rightarrow> py_error + json" where
  "selling_state status = py_bind (py_get status ''sellingState'' (JList [JStr []])) py_index0"

definition item_field :: "json \<Rightarrow> string \<Rightarrow> json \<Rightarrow> py_error + json" where
  "item_field item key dflt = py_bind (py_get item key (JList [dflt])) py_index0"

text \<open>
  The body of the loop of \<^verbatim>\<open>fetch_sold_comps\<close> for one item: \<open>None\<close> where the item is
  skipped by \<^verbatim>\<open>continue\<close>. The price is extracted before the state is looked at.
\<close>

definition sold_item ::
  "(string \<Rightarrow> real option) \<Rightarrow> json \<Rightarrow> py_error + json ListingComp option" where
  "sold_item parse item =
     py_bind (selling_status item) (\<lambda>status.
     py_bind (price_info status) (\<lambda>info.
     py_bind (extract_price parse info) (\<lambda>(p, cur).
     py_bind (selling_state status) (\<lambda>state.
     if truthy state \<and> state \<noteq> JStr ''EndedWithSales'' then Inr None
     else
       py_bind (item_field item ''title'' (JStr [])) (\<lambda>t.
       py_bind (item_field item ''viewItemURL'' JNull) (\<lambda>u.
       py_bind (item_field item ''galleryURL'' JNull) (\<lambda>g.
       Inr (Some \<lparr>ListingComp.title = t, price = p, ListingComp.currency = cur, url = u,
                  image = g, ListingComp.source = ''eBay sold''\<rparr>))))))))"

definition active_item ::
  "(string \<Rightarrow> real option) \<Rightarrow> json \<Rightarrow> py_error + json ListingComp" where
  "active_item parse item =
     py_bind (selling_status item) (\<lambda>status.
     py_bind (price_info status) (\<lambda>info.
     py_bind (extract_price parse info) (\<lambda>(p, cur).
     py_bind (item_field item ''title'' (JStr [])) (\<lambda>t.
     py_bind (item_field item ''viewItemURL'' JNull) (\<lambda>u.
     py_bind (item_field item ''galleryURL'' JNull) (\<lambda>g.
     Inr \<lparr>ListingComp.title = t, price = p, ListingComp.currency = cur, url = u,
          image = g, ListingComp.source = ''eBay active''\<rparr>))))))"

text \<open>The two loops: the first exception ends the loop and the call.\<close>

fun sold_loop ::
  "(string \<Rightarrow> real option) \<Rightarrow> json list \<Rightarrow> py_error + json ListingComp list" where
  "sold_loop parse [] = Inr []"
| "sold_loop parse (item # rest) =
     py_bind (sold_item parse item) (\<lambda>c.
     py_bind (sold_loop parse rest) (\<lambda>cs.
     Inr (case c of None \<Rightarrow> cs | Some x \<Rightarrow> x # cs)))"

fun active_loop ::
  "(string \<Rightarrow> real option) \<Rightarrow> json list \<Rightarrow> py_error + json ListingComp list" where
  "active_loop parse [] = Inr []"
| "active_loop parse (item # rest) =
     py_bind (active_item parse item) (\<lambda>c.
     py_bind (active_loop parse rest) (\<lambda>cs. Inr (c # cs)))"

text \<open>
  \<^verbatim>\<open>fetch_sold_comps\<close> and \<^verbatim>\<open>fetch_active_listings\<close>: the requests sent, and the comps or the
  exception. Nothing is sent without an application id or without a query.
\<close>

definition fetch_sold_comps ::
  "(string \<Rightarrow> real option) \<Rightarrow> EbayMarketDataFetcher \<Rightarrow> string \<Rightarrow> int \<Rightarrow> string option
     \<Rightarrow> request list \<times> (py_error + json ListingComp list)" where
  "fetch_sold_comps parse self query limit global_id =
     (if \<not> truthy_str (app_id self) \<or> query = [] then ([], Inr [])
      else
        (let (sent, data) =
               perform_request self (sold_params (or_empty (app_id self)) query limit global_id)
         in (sent,
             py_bind (extract_items data ''findCompletedItemsResponse'') (\<lambda>items.
             py_bind (py_iter items) (sold_loop parse)))))"

definition fetch_active_listings ::
  "(string \<Rightarrow> real option) \<Rightarrow> EbayMarketDataFetcher \<Rightarrow> string \<Rightarrow> int \<Rightarrow> string option
     \<Rightarrow> request list \<times> (py_error + json ListingComp list)" where
  "fetch_active_listings parse self query limit global_id =
     (if \<not> truthy_str (app_id self) \<or> query = [] then ([], Inr [])
      else
        (let (sent, data) =
               perform_request self (active_params (or_empty (app_id self)) query limit global_id)
         in (sent,
             py_bind (extract_items data ''findItemsAdvancedResponse'') (\<lambda>items.
             py_bind (py_iter items) (active_loop parse)))))"

text \<open>The selling state the loop reads of an item.\<close>

definition item_selling_state :: "json \<Rightarrow> py_error + json" where
  "item_selling_state item = py_bind (selling_status item) selling_state"

text \<open>The comps of the items for which the body of the loop builds one, in their order.\<close>

definition kept_comps :: "(string \<Rightarrow> real option) \<Rightarrow> json list \<Rightarrow> json ListingComp list" where
  "kept_comps parse items =
     concat (map (\<lambda>item. case sold_item parse item of Inr (Some c) \<Rightarrow> [c] | _ \<Rightarrow> []) items)"

subsection \<open>Sample responses\<close>

text \<open>
  \<^verbatim>\<open>float\<close> on the numerals of the sample responses; no other string of the samples is a
  numeral.
\<close>

definition sample_float :: "string \<Rightarrow> real option" where
  "sample_float = map_of [(''40.0'', 40), (''12.5'', 25 / 2), (''60'', 60)]"

definition sample_fetcher :: "json \<Rightarrow> EbayMarketDataFetcher" where
  "sample_fetcher body =
     \<lparr>app_id = Some ''key'', default_global_id = ''EBAY-DE'', session = (\<lambda>req. Some body),
      timeout = 12\<rparr>"

definition completed_response :: "json list \<Rightarrow> json" where
  "completed_response items =
     JObj [(''findCompletedItemsResponse'',
            JList [JObj [(''searchResult'', JList [JObj [(''item'', JList items)]])]])]"

definition sample_item :: "string \<Rightarrow> string \<Rightarrow> json" where
  "sample_item name state =
     JObj [(''title'', JList [JStr name]),
           (''sellingStatus'',
            JList [JObj [(''currentPrice'',
                          JList [JObj [(''__value__'', JStr ''40.0''),
                                       (''@currencyId'', JStr ''EUR'')]]),
                         (''sellingState'', JList [JStr state])]])]"

text \<open>An item whose selling status has a price and no selling state.\<close>

definition stateless_item :: json where
  "stateless_item =
     JObj [(''title'', JList [JStr ''vase'']),
           (''sellingStatus'',
            JList [JObj [(''currentPrice'',
                          JList [JObj [(''__value__'', JStr ''60''),
                                       (''@currencyId'', JStr ''EUR'')]])]])]"

section \<open>\<^verbatim>\<open>fuzzy_matcher.py\<close>: stored query names\<close>

definition QUERY_NAME_DELIMITER :: string where
  "QUERY_NAME_DELIMITER = ''||''"

text \<open>
  \<^verbatim>\<open>encode_query_name\<close>. The last \<^verbatim>\<open>strip\<close> is given the delimiter as its character set, so
  it removes every leading and trailing bar.
\<close>

definition encode_query_name :: "string option \<Rightarrow> string option \<Rightarrow> string option" where
  "encode_query_name display_name base_search_text =
     (let display = replace QUERY_NAME_DELIMITER '' '' (strip (or_empty display_name));
          base = replace QUERY_NAME_DELIMITER '' '' (strip (or_empty base_search_text))
      in if base \<noteq> [] then
           (let combined = (if display \<noteq> [] then display else base) in
            Some (strip_chars (\<lambda>c. c \<in> set QUERY_NAME_DELIMITER)
                    (combined @ QUERY_NAME_DELIMITER @ base)))
         else if display \<noteq> [] then Some display
         else None)"

definition decode_query_name :: "string option \<Rightarrow> string option \<times> string option" where
  "decode_query_name raw_value =
     (case raw_value of
        None \<Rightarrow> (None, None)
      | Some raw \<Rightarrow>
          if raw = [] then (None, None)
          else (case partition_at QUERY_NAME_DELIMITER raw of
                  Some (display, base) \<Rightarrow> (or_none (strip display), or_none (strip base))
                | None \<Rightarrow> (or_none (strip raw), None)))"

text \<open>
  A name that encoding leaves as it is: no white space at either end, no delimiter inside,
  no bar at either end.
\<close>

definition clean_name :: "string \<Rightarrow> bool" where
  "clean_name s \<longleftrightarrow>
     strip s = s \<and> partition_at QUERY_NAME_DELIMITER s = None
     \<and> (s = [] \<or> (hd s \<noteq> CHR ''|'' \<and> last s \<noteq> CHR ''|''))"

section \<open>\<^verbatim>\<open>fuzzy_matcher.py\<close>: normalisation\<close>

text \<open>
  \<^verbatim>\<open>str.lower\<close> on the code points below 256: the letters A to Z and the capital letters
  from 192 to 222, the multiplication sign 215 apart, move up by 32.
\<close>

definition py_lower_char :: "char \<Rightarrow> char" where
  "py_lower_char c =
     (let n = (of_char c :: nat) in
      if (65 \<le> n \<and> n \<le> 90) \<or> (192 \<le> n \<and> n \<le> 222 \<and> n \<noteq> 215)
      then char_of (n + 32) else c)"

definition py_lower :: "string \<Rightarrow> string" where
  "py_lower s = map py_lower_char s"

text \<open>
  \<^verbatim>\<open>unidecode\<close> transliterates character by character. Its table is not part of the
  repository and is a parameter: the ASCII string that stands for each character.
\<close>

definition unidecode :: "(char \<Rightarrow> string) \<Rightarrow> string \<Rightarrow> string" where
  "unidecode table s = concat (map table s)"

text \<open>\<^verbatim>\<open>s.split()\<close>: the maximal runs of characters that are not white space.\<close>

fun split_from :: "string \<Rightarrow> string \<Rightarrow> string list" where
  "split_from w [] = (if w = [] then [] else [w])"
| "split_from w (c # cs) =
     (if isspace c then (if w = [] then split_from [] cs else w # split_from [] cs)
      else split_from (w @ [c]) cs)"

definition py_split :: "string \<Rightarrow> string list" where
  "py_split s = split_from [] s"

text \<open>\<^verbatim>\<open>" ".join(words)\<close>.\<close>

fun join_space :: "string list \<Rightarrow> string" where
  "join_space [] = []"
| "join_space [w] = w"
| "join_space (w # v # ws) = w @ CHR '' '' # join_space (v # ws)"

definition normalize_text :: "(char \<Rightarrow> string) \<Rightarrow> string option \<Rightarrow> string" where
  "normalize_text table text =
     (case text of
        None \<Rightarrow> []
      | Some t \<Rightarrow>
          if t = [] then []
          else join_space (py_split (py_lower
                 (replace [CHR 0x27] '' '' (replace ''&'' '' '' (replace ''_'' '' ''
                   (replace ''-'' '' '' (unidecode table t))))))))"

section \<open>\<^verbatim>\<open>fuzzy_matcher.py\<close>: variants of a search text\<close>

definition MAX_VARIANTS :: nat where
  "MAX_VARIANTS = 5"

text \<open>The substitution table, in the order of the dictionary.\<close>

definition WORD_SUBSTITUTIONS :: "(string \<times> string list) list" where
  "WORD_SUBSTITUTIONS =
     [(''ph'', [''f'']), (''f'', [''ph'']), (''ck'', [''k'', ''c'']), (''oo'', [''u'', ''o'']),
      (''ou'', [''u'', ''o'']), (''ie'', [''ei'']), (''ei'', [''ie'']), (''y'', [''i'']),
      (''i'', [''y'']), (''c'', [''k'', ''q'', ''s'']), (''k'', [''c'', ''q'']),
      (''q'', [''k'', ''c'']), (''v'', [''w'', ''b'']), (''w'', [''v'']), (''b'', [''v'']),
      (''m'', [''n'']), (''n'', [''m'']), (''ll'', [''l'']), (''rr'', [''r'']),
      (''ss'', [''s'']), (''tt'', [''t'']), (''pp'', [''p'']), (''ch'', [''sh'']),
      (''sh'', [''ch'']), (''gh'', [''g'']), (''g'', [''gh'', ''j'']), (''j'', [''g''])]"

text \<open>
  The three groups of edits of \<^verbatim>\<open>_generate_word_variants\<close>, in the order in which they are
  added to the set: a doubled letter dropped, two different neighbours swapped, and the
  substitutions, the patterns sorted by descending length (the sort is stable) and each
  pattern replaced at every position where it occurs.
\<close>

definition dropped_doubles :: "string \<Rightarrow> string list" where
  "dropped_doubles word =
     [take idx word @ drop (idx + 1) word.
        idx \<leftarrow> [0..<length word - 1], word ! idx = word ! (idx + 1)]"

definition swapped_neighbours :: "string \<Rightarrow> string list" where
  "swapped_neighbours word =
     [take idx word @ [word ! (idx + 1), word ! idx] @ drop (idx + 2) word.
        idx \<leftarrow> [0..<length word - 1], word ! idx \<noteq> word ! (idx + 1)]"

definition substituted :: "string \<Rightarrow> string list" where
  "substituted word =
     [take found word @ replacement @ drop (found + length pattern) word.
        (pattern, replacements) \<leftarrow> rev (sort_key (\<lambda>kv. length (fst kv)) (rev WORD_SUBSTITUTIONS)),
        found \<leftarrow> [0..<length word], take (length pattern) (drop found word) = pattern,
        replacement \<leftarrow> replacements]"

text \<open>
  The variants are collected in a Python set, and the result lists the set in its
  iteration order, which depends on the hashes of the strings. The order is a parameter:
  a rank for each element, given the strings in the order of their insertion.
\<close>

type_synonym set_order = "string list \<Rightarrow> string \<Rightarrow> nat"

definition set_iteration :: "set_order \<Rightarrow> string list \<Rightarrow> string list" where
  "set_iteration rank inserted = sort_key (rank inserted) (remdups inserted)"

definition generate_word_variants :: "set_order \<Rightarrow> string \<Rightarrow> string list" where
  "generate_word_variants rank word =
     (if word = [] then []
      else filter (\<lambda>variant. variant \<noteq> [] \<and> variant \<noteq> word)
             (set_iteration rank
                (dropped_doubles word @ swapped_neighbours word @ substituted word)))"

text \<open>
  \<^verbatim>\<open>add_variant\<close>, on the dictionary \<^verbatim>\<open>collected\<close> as the list of its items in the order of
  insertion.
\<close>

definition add_variant ::
  "(char \<Rightarrow> string) \<Rightarrow> (string \<times> string) list \<Rightarrow> string \<Rightarrow> (string \<times> string) list" where
  "add_variant table collected v =
     (let normalized_key = normalize_text table (Some v) in
      if normalized_key = [] \<or> normalized_key \<in> fst ` set collected then collected
      else collected @ [(normalized_key, strip v)])"

definition limit_guard :: nat where
  "limit_guard = MAX_VARIANTS * 3"

text \<open>
  The state of the search: \<^verbatim>\<open>collected\<close>, \<^verbatim>\<open>seen_sequences\<close> and the queue of token
  sequences with their depths.
\<close>

type_synonym search_state =
  "(string \<times> string) list \<times> string list \<times> (string list \<times> nat) list"

text \<open>
  The loop over the candidates of one token. It ends early, by \<^verbatim>\<open>break\<close>, once the guard
  is reached.
\<close>

fun candidates_loop ::
  "(char \<Rightarrow> string) \<Rightarrow> string list \<Rightarrow> nat \<Rightarrow> nat \<Rightarrow> string list \<Rightarrow> search_state
     \<Rightarrow> search_state" where
  "candidates_loop table tokens depth idx [] st = st"
| "candidates_loop table tokens depth idx (candidate # rest) (collected, seen, queue) =
     (let new_tokens = tokens[idx := candidate]; key = join_space new_tokens in
      if key \<in> set seen then candidates_loop table tokens depth idx rest (collected, seen, queue)
      else
        (let seen' = seen @ [key];
             collected' = add_variant table collected (join_space new_tokens) in
         if limit_guard \<le> length collected' then (collected', seen', queue)
         else candidates_loop table tokens depth idx rest
                (collected', seen',
                 if depth < 1 then queue @ [(new_tokens, depth + 1)] else queue)))"

text \<open>The loop over the tokens of one sequence, with its \<^verbatim>\<open>break\<close>.\<close>

fun tokens_loop ::
  "(char \<Rightarrow> string) \<Rightarrow> set_order \<Rightarrow> string list \<Rightarrow> nat \<Rightarrow> nat list \<Rightarrow> search_state
     \<Rightarrow> search_state" where
  "tokens_loop table rank tokens depth [] st = st"
| "tokens_loop table rank tokens depth (idx # idxs) st =
     (let st' = candidates_loop table tokens depth idx
                  (generate_word_variants rank (tokens ! idx)) st in
      if limit_guard \<le> length (fst st') then st'
      else tokens_loop table rank tokens depth idxs st')"

text \<open>
  The weight of a queue: a sequence at depth 0 counts for its candidates and itself, any
  other sequence for one. Each turn of the \<^verbatim>\<open>while\<close> loop lowers it.
\<close>

definition candidate_count :: "set_order \<Rightarrow> string list \<Rightarrow> nat list \<Rightarrow> nat" where
  "candidate_count rank tokens idxs =
     sum_list (map (\<lambda>idx. length (generate_word_variants rank (tokens ! idx))) idxs)"

definition queue_weight :: "set_order \<Rightarrow> (string list \<times> nat) list \<Rightarrow> nat" where
  "queue_weight rank queue =
     sum_list (map (\<lambda>(tokens, depth).
       if depth < 1 then Suc (candidate_count rank tokens [0..<length tokens]) else 1) queue)"

lemma candidates_loop_weight:
  "queue_weight rank (snd (snd (candidates_loop table tokens depth idx cands (c, s, q))))
     \<le> queue_weight rank q + (if depth < 1 then length cands else 0)"
proof (induction cands arbitrary: c s q)
  case Nil
  then show ?case by simp
next
  case (Cons cand rest)
  show ?case
    using Cons.IH [of c s q]
      Cons.IH [of "add_variant table c (join_space (tokens[idx := cand]))"
        "s @ [join_space (tokens[idx := cand])]"
        "if depth < 1 then q @ [(tokens[idx := cand], depth + 1)] else q"]
    by (auto simp: Let_def queue_weight_def)
qed

lemma tokens_loop_weight:
  "queue_weight rank (snd (snd (tokens_loop table rank tokens depth idxs (c, s, q))))
     \<le> queue_weight rank q + (if depth < 1 then candidate_count rank tokens idxs else 0)"
proof (induction idxs arbitrary: c s q)
  case Nil
  then show ?case by (simp add: candidate_count_def)
next
  case (Cons idx idxs)
  obtain c' s' q' where st: "candidates_loop table tokens depth idx
      (generate_word_variants rank (tokens ! idx)) (c, s, q) = (c', s', q')"
    by (cases "candidates_loop table tokens depth idx
          (generate_word_variants rank (tokens ! idx)) (c, s, q)") auto
  have one: "queue_weight rank q'
      \<le> queue_weight rank q
        + (if depth < 1 then length (generate_word_variants rank (tokens ! idx)) else 0)"
    using candidates_loop_weight
      [of rank table tokens depth idx "generate_word_variants rank (tokens ! idx)" c s q] st
    by simp
  show ?case
    using one Cons.IH [of c' s' q'] st
    by (auto simp: Let_def candidate_count_def)
qed

text \<open>The \<^verbatim>\<open>while queue\<close> loop, with its \<^verbatim>\<open>break\<close>: the final \<^verbatim>\<open>collected\<close>.\<close>

function breadth_first ::
  "(char \<Rightarrow> string) \<Rightarrow> set_order \<Rightarrow> search_state \<Rightarrow> (string \<times> string) list" where
  "breadth_first table rank (collected, seen, []) = collected"
| "breadth_first table rank (collected, seen, (tokens, depth) # queue) =
     (let st' = tokens_loop table rank tokens depth [0..<length tokens] (collected, seen, queue)
      in if limit_guard \<le> length (fst st') then fst st' else breadth_first table rank st')"
  by pat_completeness auto
termination
proof (relation "measure (\<lambda>(table, rank, st). queue_weight rank (snd (snd st)))")
  show "wf (measure (\<lambda>(table, rank, st). queue_weight rank (snd (snd st))))" by simp
next
  fix table :: "char \<Rightarrow> string" and rank :: set_order
    and collected seen tokens and depth :: nat and queue x
  assume x: "x = tokens_loop table rank tokens depth [0..<length tokens] (collected, seen, queue)"
  have "queue_weight rank (snd (snd x))
      \<le> queue_weight rank queue
        + (if depth < 1 then candidate_count rank tokens [0..<length tokens] else 0)"
    unfolding x by (rule tokens_loop_weight)
  also have "\<dots> < queue_weight rank ((tokens, depth) # queue)"
    by (simp add: queue_weight_def)
  finally show "((table, rank, x), table, rank, collected, seen, (tokens, depth) # queue)
      \<in> measure (\<lambda>(table, rank, st). queue_weight rank (snd (snd st)))"
    by simp
qed

text \<open>
  \<^verbatim>\<open>Levenshtein.distance\<close> of rapidfuzz with its default weights: the least number of
  insertions, deletions and substitutions of a character.
\<close>

fun levenshtein :: "string \<Rightarrow> string \<Rightarrow> nat" where
  "levenshtein [] ys = length ys"
| "levenshtein (x # xs) [] = Suc (length xs)"
| "levenshtein (x # xs) (y # ys) =
     min (min (Suc (levenshtein xs (y # ys))) (Suc (levenshtein (x # xs) ys)))
         (levenshtein xs ys + (if x = y then 0 else 1))"

text \<open>
  \<^verbatim>\<open>_expand_search_text_variants\<close>. The pairs (distance, value) are sorted as Python sorts
  tuples, and the first \<open>MAX_VARIANTS\<close> values are returned.
\<close>

definition expand_search_text_variants ::
  "(char \<Rightarrow> string) \<Rightarrow> set_order \<Rightarrow> string option \<Rightarrow> string list" where
  "expand_search_text_variants table rank search_text =
     (case search_text of
        None \<Rightarrow> []
      | Some text \<Rightarrow>
          (let base = strip text in
           if base = [] then []
           else
             (let normalized_base = normalize_text table (Some base);
                  seeds = add_variant table
                            (add_variant table (add_variant table [] base) (py_lower base))
                            (unidecode table base);
                  normalized_tokens = py_split normalized_base;
                  collected =
                    (if normalized_tokens \<noteq> [] then
                       breadth_first table rank
                         (seeds, [join_space normalized_tokens], [(normalized_tokens, 0)])
                     else seeds);
                  scored_variants =
                    sort_key (\<lambda>item. (fst item, snd item))
                      (map (\<lambda>(key, v). (levenshtein normalized_base key, v)) collected)
              in take MAX_VARIANTS (map snd scored_variants))))"

section \<open>\<^verbatim>\<open>fuzzy_matcher.py\<close>: the best match\<close>

definition DEFAULT_FUZZY_THRESHOLD :: int where
  "DEFAULT_FUZZY_THRESHOLD = 72"

text \<open>\<^verbatim>\<open>_build_fuzzy_targets\<close>: the dictionary as the list of its items.\<close>

fun add_token_targets :: "(string \<times> string) list \<Rightarrow> string list \<Rightarrow> (string \<times> string) list" where
  "add_token_targets targets [] = targets"
| "add_token_targets targets (token # rest) =
     (if 4 \<le> length token \<and> token \<notin> fst ` set targets
      then add_token_targets (targets @ [(token, token)]) rest
      else add_token_targets targets rest)"

definition build_fuzzy_targets :: "(char \<Rightarrow> string) \<Rightarrow> string \<Rightarrow> (string \<times> string) list" where
  "build_fuzzy_targets table base_search_text =
     (let normalized_base = normalize_text table (Some base_search_text) in
      if normalized_base \<noteq> [] then
        add_token_targets [(normalized_base, strip base_search_text)] (py_split normalized_base)
      else [])"

text \<open>
  \<^verbatim>\<open>process.extractOne(query, choices, scorer=..., processor=None)\<close> of rapidfuzz, for a
  scorer where a higher score is better and 0 the worst: the choice, its score and its
  index, for the first choice whose score is at least the cut-off 0 and above every
  earlier one; \<open>None\<close> without such a choice. The scorer is a parameter.
\<close>

fun extract_loop ::
  "(string \<Rightarrow> string \<Rightarrow> real) \<Rightarrow> string \<Rightarrow> (string \<times> nat) list \<Rightarrow> (string \<times> real \<times> nat) option
     \<Rightarrow> (string \<times> real \<times> nat) option" where
  "extract_loop scorer query [] best = best"
| "extract_loop scorer query ((choice, i) # rest) best =
     (let sc = scorer query choice in
      if 0 \<le> sc \<and> (case best of None \<Rightarrow> True | Some (_, best_score, _) \<Rightarrow> best_score < sc)
      then extract_loop scorer query rest (Some (choice, sc, i))
      else extract_loop scorer query rest best)"

definition extractOne ::
  "(string \<Rightarrow> string \<Rightarrow> real) \<Rightarrow> string \<Rightarrow> string list \<Rightarrow> (string \<times> real \<times> nat) option" where
  "extractOne scorer query choices =
     extract_loop scorer query (zip choices [0..<length choices]) None"

text \<open>
  One turn of the loop of \<^verbatim>\<open>find_best_fuzzy_match\<close> over the title and the brand: the best
  result so far, replaced only by a strictly higher score.
\<close>

definition match_candidate ::
  "(char \<Rightarrow> string) \<Rightarrow> (string \<Rightarrow> string \<Rightarrow> real) \<Rightarrow> (string \<times> string) list \<Rightarrow> int
     \<Rightarrow> string \<Rightarrow> string option \<Rightarrow> FuzzyMatch option \<Rightarrow> FuzzyMatch option" where
  "match_candidate table scorer targets threshold src candidate best =
     (let normalized_candidate = normalize_text table candidate in
      if normalized_candidate = [] then best
      else
        (case extractOne scorer normalized_candidate (map fst targets) of
           None \<Rightarrow> best
         | Some (choice, sc, i) \<Rightarrow>
             if sc < of_int threshold then best
             else if (case best of None \<Rightarrow> True | Some b \<Rightarrow> score b < sc)
             then Some \<lparr>score = sc, FuzzyMatch.source = src,
                        target = (case map_of targets choice of Some t \<Rightarrow> t | None \<Rightarrow> []),
                        source_text = map_option strip candidate\<rparr>
             else best))"

definition find_best_fuzzy_match ::
  "(char \<Rightarrow> string) \<Rightarrow> (string \<Rightarrow> string \<Rightarrow> real) \<Rightarrow> string option \<Rightarrow> string option
     \<Rightarrow> string option \<Rightarrow> int \<Rightarrow> FuzzyMatch option" where
  "find_best_fuzzy_match table scorer base_search_text title0 brand0 threshold =
     (case base_search_text of
        None \<Rightarrow> None
      | Some base \<Rightarrow>
          if base = [] then None
          else
            (let targets = build_fuzzy_targets table base in
             if targets = [] then None
             else match_candidate table scorer targets threshold ''brand'' brand0
                    (match_candidate table scorer targets threshold ''title'' title0 None)))"

subsection \<open>Sample parameters\<close>

text \<open>
  A transliteration table that keeps the ASCII characters and writes a question mark for
  every other one; the iteration order that is the order of insertion; and a scorer that
  gives 100 to equal strings and 0 to different ones.
\<close>

definition ascii_table :: "char \<Rightarrow> string" where
  "ascii_table c = (if (of_char c :: nat) < 128 then [c] else ''?'')"

definition insertion_order :: set_order where
  "insertion_order inserted v = 0"

definition exact_scorer :: "string \<Rightarrow> string \<Rightarrow> real" where
  "exact_scorer a b = (if a = b then 100 else 0)"


section \<open>Conditions on the transliteration table\<close>

definition is_ascii :: "char \<Rightarrow> bool" where
  "is_ascii c \<longleftrightarrow> (of_char c :: nat) < 128"

text \<open>
  What the documentation of \<^verbatim>\<open>unidecode\<close> promises: an ASCII character stands for itself,
  and every character is written in ASCII.
\<close>

definition unidecode_ascii :: "(char \<Rightarrow> string) \<Rightarrow> bool" where
  "unidecode_ascii table \<longleftrightarrow>
     (\<forall>c. is_ascii c \<longrightarrow> table c = [c]) \<and> (\<forall>c. \<forall>d \<in> set (table c). is_ascii d)"

text \<open>
  The characters of a normalised token: ASCII, no white space, none of the four separators
  that normalisation replaces, and in lower case.
\<close>

definition plain_char :: "char \<Rightarrow> bool" where
  "plain_char c \<longleftrightarrow>
     is_ascii c \<and> \<not> isspace c \<and> c \<notin> {CHR ''-'', CHR ''_'', CHR ''&'', CHR 0x27}
     \<and> py_lower_char c = c"

definition plain_token :: "string \<Rightarrow> bool" where
  "plain_token w \<longleftrightarrow> w \<noteq> [] \<and> (\<forall>c \<in> set w. plain_char c)"

text \<open>
  What normalisation does to one transliterated character: a separator becomes a space,
  then the character is lowered.
\<close>

definition fold_char :: "char \<Rightarrow> char" where
  "fold_char c =
     py_lower_char (if c \<in> {CHR ''-'', CHR ''_'', CHR ''&'', CHR 0x27} then CHR '' '' else c)"

section \<open>Invariants of the search for variants\<close>

text \<open>
  What the search keeps of \<^verbatim>\<open>collected\<close>: the keys are distinct, the seeds come first, and
  every later value is its own key and its own normalised text.
\<close>

definition search_inv ::
  "(char \<Rightarrow> string) \<Rightarrow> (string \<times> string) list \<Rightarrow> (string \<times> string) list \<Rightarrow> bool" where
  "search_inv table seeds collected \<longleftrightarrow>
     distinct (map fst collected)
     \<and> (\<exists>added. collected = seeds @ added
           \<and> (\<forall>kv \<in> set added. snd kv = fst kv
                 \<and> normalize_text table (Some (fst kv)) = fst kv))"

text \<open>Every sequence of the queue is a non-empty list of plain tokens.\<close>

definition plain_tokens :: "string list \<Rightarrow> bool" where
  "plain_tokens ts \<longleftrightarrow> ts \<noteq> [] \<and> (\<forall>t \<in> set ts. plain_token t)"

definition plain_queue :: "(string list \<times> nat) list \<Rightarrow> bool" where
  "plain_queue queue \<longleftrightarrow> (\<forall>item \<in> set queue. plain_tokens (fst item))"

text \<open>
  The final \<^verbatim>\<open>collected\<close> of \<^verbatim>\<open>_expand_search_text_variants\<close> for a stripped, non-empty
  base: the seeds, extended by the search where the normalised base has a token.
\<close>

definition collected_variants ::
  "(char \<Rightarrow> string) \<Rightarrow> set_order \<Rightarrow> string \<Rightarrow> (string \<times> string) list" where
  "collected_variants table rank base =
     (let normalized_base = normalize_text table (Some base);
          seeds = add_variant table
                    (add_variant table (add_variant table [] base) (py_lower base))
                    (unidecode table base);
          normalized_tokens = py_split normalized_base
      in if normalized_tokens \<noteq> [] then
           breadth_first table rank
             (seeds, [join_space normalized_tokens], [(normalized_tokens, 0)])
         else seeds)"



section \<open>Confidence\<close>

text \<open>
  C2. At a fixed fuzzy score of at least 82, a summary with sample size 3 is labelled Low
  and the same summary with sample size 4 is labelled Medium or High; and every summary
  with a sample size below 4 is labelled Low, whatever the score (a missing one too).
\<close>

theorem score_confidence_sample_size:
  "(82 \<le> sc \<longrightarrow>
      (\<exists>ic. score_confidence threshold (Some sc) (summary\<lparr>sample_size := 3\<rparr>) = Inr (''Low'', ic))
    \<and> (\<exists>label ic. score_confidence threshold (Some sc) (summary\<lparr>sample_size := 4\<rparr>) = Inr (label, ic)
          \<and> (label = ''Medium'' \<or> label = ''High'')))
   \<and> (sample_size summary < 4 \<longrightarrow>
        score_confidence threshold fuzzy summary = Inr (''Low'', Orange_Circle))"
  by (simp add: score_confidence_def)

theorem score_confidence_sample_size_witness:
  "score_confidence (35 / 100) (Some 95) (empty_summary ''eBay sold''\<lparr>sample_size := 3\<rparr>)
     = Inr (''Low'', Orange_Circle)
   \<and> score_confidence (35 / 100) (Some 95) (empty_summary ''eBay sold''\<lparr>sample_size := 4\<rparr>)
     = Inr (''Medium'', Yellow_Circle)
   \<and> score_confidence (35 / 100) None (empty_summary ''eBay sold'') = Inr (''Low'', Orange_Circle)"
  using score_confidence_sample_size [of 95 "35 / 100" "empty_summary ''eBay sold''" None]
  by (simp add: score_confidence_def empty_summary_def)

section \<open>Summaries are total\<close>

lemma group_add_nonempty:
  "\<forall>g \<in> set groups. snd g \<noteq> [] \<Longrightarrow> \<forall>g \<in> set (group_add groups c p). snd g \<noteq> []"
  by (induction groups c p rule: group_add.induct) auto

lemma currency_groups_nonempty:
  "\<forall>g \<in> set groups. snd g \<noteq> [] \<Longrightarrow> \<forall>g \<in> set (currency_groups groups ls). snd g \<noteq> []"
proof (induction ls arbitrary: groups)
  case Nil
  then show ?case by simp
next
  case (Cons l ls)
  show ?case
  proof (cases "price l")
    case None
    then show ?thesis using Cons by simp
  next
    case (Some p)
    show ?thesis
    proof (cases "ListingComp.currency l")
      case None
      then show ?thesis using Cons Some by simp
    next
      case (Some c)
      show ?thesis
        using Cons.IH [OF group_add_nonempty [OF Cons.prems, of c p]] Some \<open>price l = Some p\<close>
        by simp
    qed
  qed
qed

lemma max_group_mem: "max_group best gs \<in> set (best # gs)"
  by (induction best gs rule: max_group.induct) auto

lemma py_min_Inr: "xs \<noteq> [] \<Longrightarrow> \<exists>lo. py_min xs = Inr lo"
  by (cases xs) (simp_all add: py_min_def)

lemma py_max_Inr: "xs \<noteq> [] \<Longrightarrow> \<exists>hi. py_max xs = Inr hi"
  by (cases xs) (simp_all add: py_max_def)

lemma statistics_median_Inr:
  assumes "xs \<noteq> []"
  shows "\<exists>m. statistics_median xs = Inr m"
proof -
  have pick: "\<exists>m. (if c then Inr a else Inr b) = (Inr m :: py_error + real)" for c a b
    by (cases c) (simp_all del: sum.inject, blast+)
  have "length (sort xs) \<noteq> 0" using assms by simp
  then show ?thesis
    unfolding statistics_median_def Let_def using pick by presburger
qed

lemma sort_eq_Nil_iff: "sort xs = [] \<longleftrightarrow> xs = []"
  by (metis length_sort length_0_conv)

lemma summarize_cases:
  "summarize ls src = Inr (empty_summary src)
   \<or> (\<exists>cur ps lo hi med. ps \<noteq> [] \<and> py_min (sort ps) = Inr lo \<and> py_max (sort ps) = Inr hi
        \<and> statistics_median (sort ps) = Inr med
        \<and> summarize ls src =
            Inr \<lparr>minimum = Some lo, maximum = Some hi, median = Some med, currency = Some cur,
                 sample_size = int (length (sort ps)), source = src, prices = sort ps\<rparr>)"
proof (cases "ls = [] \<or> currency_groups [] ls = []")
  case True
  then show ?thesis by (auto simp: summarize_def)
next
  case False
  then obtain g gs where G: "currency_groups [] ls = g # gs"
    by (cases "currency_groups [] ls") auto
  obtain cur ps where M: "max_group g gs = (cur, ps)" by (cases "max_group g gs")
  have "(cur, ps) \<in> set (currency_groups [] ls)"
    using max_group_mem [of g gs] G M by simp
  then have ne: "ps \<noteq> []" using currency_groups_nonempty [of "[]" ls] by fastforce
  then have ne': "sort ps \<noteq> []" by (simp add: sort_eq_Nil_iff)
  obtain lo hi med where
    "py_min (sort ps) = Inr lo" "py_max (sort ps) = Inr hi" "statistics_median (sort ps) = Inr med"
    using py_min_Inr [OF ne'] py_max_Inr [OF ne'] statistics_median_Inr [OF ne'] by blast
  then show ?thesis using False G M ne by (auto simp: summarize_def)
qed

lemma summarize_total: "\<exists>s. summarize ls src = Inr s"
  using summarize_cases [of ls src] by auto

lemma summarize_median:
  assumes "summarize ls src = Inr s"
  shows "(sample_size s = 0 \<and> median s = None)
       \<or> (0 < sample_size s \<and> sample_size s = int (length (prices s))
           \<and> (\<exists>med. statistics_median (prices s) = Inr med \<and> median s = Some med)
           \<and> (\<exists>cur. MarketSummary.currency s = Some cur))"
  using summarize_cases [of ls src] assms
  by (auto simp: empty_summary_def)

lemma evaluate_Inr:
  assumes "evaluate engine t b p c base fz = Inr r"
  shows "(profit r, profit_currency r, profit_multiple r) = estimate_profit (sold_summary r) p c
     \<and> item_currency r = c \<and> item_price r = p
     \<and> (sold_summary r = empty_summary ''eBay sold''
         \<or> (\<exists>ls. summarize ls ''eBay sold'' = Inr (sold_summary r)))"
  using assms unfolding evaluate_def Let_def
  by (auto split: option.splits sum.splits if_splits prod.splits)

lemma summarize_sold_comp_40:
  "summarize [sold_comp 40 []] ''eBay sold'' = Inr summary_40_no_code"
  by (simp add: summarize_def sold_comp_def summary_40_no_code_def py_min_def py_max_def
      statistics_median_def)

section \<open>Profit\<close>

text \<open>
  C1, as the code has it. The profit is none exactly when the sample size is 0, or the
  summary has no median, or the summary's currency is a non-empty string other than the
  item's currency. Otherwise the profit is the summary's median minus the item price, and
  the multiple is the median divided by the item price for a positive item price and none
  otherwise. In a summary built by \<^verbatim>\<open>_summarize\<close> with a sample size other than 0, the
  median is \<^verbatim>\<open>statistics.median\<close> of its prices.
\<close>

theorem estimate_profit_none_iff:
  "(fst (estimate_profit s p c) = None \<longleftrightarrow>
      sample_size s = 0 \<or> median s = None
      \<or> (truthy_str (MarketSummary.currency s) \<and> MarketSummary.currency s \<noteq> Some c))
   \<and> (fst (estimate_profit s p c) \<noteq> None \<longrightarrow>
        (\<exists>med. median s = Some med
           \<and> fst (estimate_profit s p c) = Some (med - p)
           \<and> snd (snd (estimate_profit s p c)) = (if 0 < p then Some (med / p) else None)))
   \<and> (\<forall>ls src. summarize ls src = Inr s \<and> sample_size s \<noteq> 0 \<longrightarrow>
        (\<exists>med. statistics_median (prices s) = Inr med \<and> median s = Some med))"
proof -
  have "\<forall>ls src. summarize ls src = Inr s \<and> sample_size s \<noteq> 0 \<longrightarrow>
        (\<exists>med. statistics_median (prices s) = Inr med \<and> median s = Some med)"
    using summarize_median by blast
  then show ?thesis
    by (cases "median s") (simp_all add: estimate_profit_def)
qed

text \<open>
  The statement at the summary of one comp priced 40 with an empty currency string, for an
  item priced 25 EUR: the profit is 15 and the multiple 40 / 25.
\<close>

theorem estimate_profit_none_iff_witness:
  "summarize [sold_comp 40 []] ''eBay sold'' = Inr summary_40_no_code
   \<and> sample_size summary_40_no_code \<noteq> 0
   \<and> statistics_median (prices summary_40_no_code) = Inr 40
   \<and> fst (estimate_profit summary_40_no_code 25 ''EUR'') = Some (40 - 25)
   \<and> snd (snd (estimate_profit summary_40_no_code 25 ''EUR'')) = Some (40 / 25)"
  using estimate_profit_none_iff [of summary_40_no_code 25 "''EUR''"] summarize_sold_comp_40
  by (simp add: summary_40_no_code_def estimate_profit_def truthy_str_def
      statistics_median_def)

text \<open>
  C1 as the specification words it fails: the summary of one comp whose currency is the
  empty string has a sample size of 1 and a currency that differs from the item's EUR, and
  the profit is 15, not none.
\<close>

theorem estimate_profit_counterexample:
  "summarize [sold_comp 40 []] ''eBay sold'' = Inr summary_40_no_code
   \<and> sample_size summary_40_no_code \<noteq> 0
   \<and> MarketSummary.currency summary_40_no_code \<noteq> Some ''EUR''
   \<and> fst (estimate_profit summary_40_no_code 25 ''EUR'') = Some 15"
  using summarize_sold_comp_40
  by (simp add: summary_40_no_code_def estimate_profit_def truthy_str_def)

text \<open>
  C10, as the code has it. For a summary with a positive sample size and a non-empty
  currency other than the item's, the estimate is no profit, no multiple, and the summary's
  currency as profit currency: so for every summary that has a median, for every summary
  built by \<^verbatim>\<open>_summarize\<close>, and for the sold summary of every result of \<^verbatim>\<open>evaluate\<close>, which
  then carries no profit, no multiple and the sold summary's currency.
\<close>

theorem estimate_profit_currency_mismatch:
  "(0 < sample_size s \<and> median s \<noteq> None \<and> MarketSummary.currency s = Some sc \<and> sc \<noteq> []
      \<and> sc \<noteq> c
      \<longrightarrow> estimate_profit s p c = (None, Some sc, None))
   \<and> (summarize ls src = Inr s \<and> 0 < sample_size s \<and> MarketSummary.currency s = Some sc
        \<and> sc \<noteq> [] \<and> sc \<noteq> c
      \<longrightarrow> estimate_profit s p c = (None, Some sc, None))
   \<and> (evaluate engine t b p c base fz = Inr r \<and> 0 < sample_size (sold_summary r)
        \<and> MarketSummary.currency (sold_summary r) = Some sc \<and> sc \<noteq> [] \<and> sc \<noteq> c
      \<longrightarrow> profit r = None \<and> profit_multiple r = None \<and> profit_currency r = Some sc
          \<and> item_currency r = c)"
proof -
  have first: "estimate_profit s' p c = (None, Some sc, None)"
    if "0 < sample_size s'" "median s' \<noteq> None" "MarketSummary.currency s' = Some sc"
      "sc \<noteq> []" "sc \<noteq> c" for s'
    using that by (cases "median s'") (simp_all add: estimate_profit_def truthy_str_def)
  have built: "estimate_profit s' p c = (None, Some sc, None)"
    if S: "summarize ls' src' = Inr s'" and pos: "0 < sample_size s'"
      and cur: "MarketSummary.currency s' = Some sc" "sc \<noteq> []" "sc \<noteq> c" for s' ls' src'
  proof -
    have "median s' \<noteq> None"
      using summarize_median [OF S] pos by auto
    then show ?thesis using first pos cur by blast
  qed
  have second: "profit r = None \<and> profit_multiple r = None \<and> profit_currency r = Some sc
      \<and> item_currency r = c"
    if E: "evaluate engine t b p c base fz = Inr r" and pos: "0 < sample_size (sold_summary r)"
      and cur: "MarketSummary.currency (sold_summary r) = Some sc" "sc \<noteq> []" "sc \<noteq> c"
  proof -
    note R = evaluate_Inr [OF E]
    have "sold_summary r \<noteq> empty_summary ''eBay sold''"
      using pos by (auto simp: empty_summary_def)
    then obtain ls' where "summarize ls' ''eBay sold'' = Inr (sold_summary r)" using R by blast
    then have "estimate_profit (sold_summary r) p c = (None, Some sc, None)"
      using built pos cur by blast
    then show ?thesis using R by simp
  qed
  show ?thesis using first built second by blast
qed

text \<open>
  The statement at an item priced 25 EUR whose two sold comps are in USD: the evaluation
  returns no profit and the profit currency USD.
\<close>

theorem estimate_profit_currency_mismatch_witness:
  "(\<exists>r. evaluate (stub_engine [sold_comp 40 ''USD'', sold_comp 60 ''USD'']) None None 25 ''EUR''
          None None = Inr r
       \<and> summarize [sold_comp 40 ''USD'', sold_comp 60 ''USD''] ''eBay sold''
           = Inr (sold_summary r)
       \<and> sample_size (sold_summary r) = 2
       \<and> median (sold_summary r) = Some 50
       \<and> MarketSummary.currency (sold_summary r) = Some ''USD''
       \<and> estimate_profit (sold_summary r) 25 ''EUR'' = (None, Some ''USD'', None)
       \<and> profit r = None \<and> profit_multiple r = None \<and> profit_currency r = Some ''USD''
       \<and> item_currency r = ''EUR'')"
proof -
  obtain r where E: "evaluate (stub_engine [sold_comp 40 ''USD'', sold_comp 60 ''USD'']) None None
      25 ''EUR'' None None = Inr r"
    and S: "sold_summary r =
      \<lparr>minimum = Some 40, maximum = Some 60, median = Some 50, currency = Some ''USD'',
       sample_size = 2, source = ''eBay sold'', prices = [40, 60]\<rparr>"
    by (simp add: evaluate_def stub_engine_def stub_fetcher_def stub_normalizer_def
        summarize_def sold_comp_def py_min_def py_max_def statistics_median_def
        estimate_profit_def truthy_str_def score_confidence_def empty_summary_def)
  have B: "summarize [sold_comp 40 ''USD'', sold_comp 60 ''USD''] ''eBay sold''
      = Inr (sold_summary r)"
    unfolding S
    by (simp add: summarize_def sold_comp_def py_min_def py_max_def statistics_median_def)
  show ?thesis
    using estimate_profit_currency_mismatch
      [of "sold_summary r" "''USD''" "''EUR''" 25
        "[sold_comp 40 ''USD'', sold_comp 60 ''USD'']" "''eBay sold''"
        "stub_engine [sold_comp 40 ''USD'', sold_comp 60 ''USD'']" None None None None r]
      E S B
    by (intro exI [of _ r]) simp
qed

text \<open>
  C10 as the claim words it fails on a summary that \<^verbatim>\<open>_summarize\<close> builds and \<^verbatim>\<open>evaluate\<close>
  passes on. Two sold comps priced 40 and 60 whose currency is the empty string give a
  summary with sample size 2 and the currency \<^verbatim>\<open>""\<close>, which is not none and differs from the
  GBP of an item priced 30; the estimate is a profit of 20, not none, and the profit
  currency is GBP, the item's and not the summary's. The result of \<^verbatim>\<open>evaluate\<close> on these
  comps carries the same.
\<close>

theorem estimate_profit_currency_mismatch_counterexample:
  "summarize [sold_comp 40 [], sold_comp 60 []] ''eBay sold'' = Inr summary_50_no_code
   \<and> 0 < sample_size summary_50_no_code
   \<and> MarketSummary.currency summary_50_no_code = Some []
   \<and> MarketSummary.currency summary_50_no_code \<noteq> None
   \<and> MarketSummary.currency summary_50_no_code \<noteq> Some ''GBP''
   \<and> estimate_profit summary_50_no_code 30 ''GBP'' = (Some 20, Some ''GBP'', Some (50 / 30))
   \<and> map_sum id (\<lambda>r. (sold_summary r, item_currency r, profit r, profit_currency r,
          profit_multiple r))
        (evaluate (stub_engine [sold_comp 40 [], sold_comp 60 []]) None None 30 ''GBP''
          None None)
      = Inr (summary_50_no_code, ''GBP'', Some 20, Some ''GBP'', Some (50 / 30))"
  by (simp add: evaluate_def stub_engine_def stub_fetcher_def stub_normalizer_def
      summarize_def sold_comp_def py_min_def py_max_def statistics_median_def
      estimate_profit_def truthy_str_def score_confidence_def empty_summary_def
      summary_50_no_code_def)

section \<open>Stored query names\<close>

lemma replace_none: "partition_at ''||'' s = None \<Longrightarrow> replace ''||'' new s = s"
  by (induction s) (auto split: if_splits)

lemma partition_at_append:
  "partition_at ''||'' c = None \<Longrightarrow> c = [] \<or> last c \<noteq> CHR ''|'' \<Longrightarrow>
   partition_at ''||'' (c @ ''||'' @ b) = Some (c, b)"
proof (induction c)
  case Nil
  then show ?case by simp
next
  case (Cons x xs)
  show ?case
  proof (cases xs)
    case Nil
    then show ?thesis using Cons by auto
  next
    case (Cons y ys)
    then show ?thesis using Cons.prems Cons.IH by (auto split: if_splits)
  qed
qed

lemma dropWhile_self: "xs \<noteq> [] \<Longrightarrow> \<not> P (hd xs) \<Longrightarrow> dropWhile P xs = xs"
  by (cases xs) auto

lemma strip_chars_id:
  assumes "s \<noteq> []" "\<not> P (hd s)" "\<not> P (last s)"
  shows "strip_chars P s = s"
proof -
  have "dropWhile P s = s" using assms by (simp add: dropWhile_self)
  moreover have "dropWhile P (rev s) = rev s"
    using assms by (intro dropWhile_self) (simp_all add: hd_rev)
  ultimately show ?thesis by (simp add: strip_chars_def)
qed

lemma encode_clean:
  assumes "clean_name c" "clean_name b" "b \<noteq> []" "c \<noteq> []"
  shows "encode_query_name (Some c) (Some b) = Some (c @ ''||'' @ b)"
proof -
  have rd: "replace ''||'' '' '' (strip c) = c" "replace ''||'' '' '' (strip b) = b"
    using assms by (simp_all add: clean_name_def replace_none QUERY_NAME_DELIMITER_def)
  have st: "strip_chars (\<lambda>x. x \<in> set ''||'') (c @ ''||'' @ b) = c @ ''||'' @ b"
    using assms by (intro strip_chars_id) (auto simp: clean_name_def)
  show ?thesis
    using rd st assms
    unfolding encode_query_name_def QUERY_NAME_DELIMITER_def or_empty_def Let_def
    by simp
qed

lemma encode_clean_empty:
  assumes "clean_name b" "b \<noteq> []"
  shows "encode_query_name (Some []) (Some b) = Some (b @ ''||'' @ b)"
proof -
  have rd: "replace ''||'' '' '' (strip b) = b"
    using assms by (simp_all add: clean_name_def replace_none QUERY_NAME_DELIMITER_def)
  have st: "strip_chars (\<lambda>x. x \<in> set ''||'') (b @ ''||'' @ b) = b @ ''||'' @ b"
    using assms by (intro strip_chars_id) (auto simp: clean_name_def)
  have e: "strip [] = []" by (simp add: strip_def strip_chars_def)
  show ?thesis
    using rd st assms e
    unfolding encode_query_name_def QUERY_NAME_DELIMITER_def or_empty_def Let_def
    by simp
qed

lemma decode_clean:
  assumes "clean_name c" "clean_name b" "b \<noteq> []" "c \<noteq> []"
  shows "decode_query_name (Some (c @ ''||'' @ b)) = (Some c, Some b)"
proof -
  have pa: "partition_at ''||'' (c @ ''||'' @ b) = Some (c, b)"
    using assms
    by (intro partition_at_append) (auto simp: clean_name_def QUERY_NAME_DELIMITER_def)
  show ?thesis
    using pa assms
    by (simp add: decode_query_name_def QUERY_NAME_DELIMITER_def or_none_def clean_name_def)
qed

text \<open>
  C6, as the code has it. For a display name and a non-empty base text that have no white
  space at either end, do not contain the delimiter and neither start nor end with a bar,
  decoding the encoded pair gives the display name (the base text where the display name
  is empty) and the base text, and encoding the decoded pair gives the stored value again.
\<close>

theorem decode_encode_query_name:
  assumes "clean_name display" "clean_name base" "base \<noteq> []"
  shows "decode_query_name (encode_query_name (Some display) (Some base))
           = (Some (if display \<noteq> [] then display else base), Some base)
    \<and> encode_query_name
         (fst (decode_query_name (encode_query_name (Some display) (Some base))))
         (snd (decode_query_name (encode_query_name (Some display) (Some base))))
       = encode_query_name (Some display) (Some base)"
proof (cases "display = []")
  case True
  then show ?thesis
    using encode_clean_empty [OF assms(2,3)]
      decode_clean [OF assms(2) assms(2) assms(3) assms(3)]
      encode_clean [OF assms(2) assms(2) assms(3) assms(3)]
    by simp
next
  case False
  then show ?thesis
    using encode_clean [OF assms False] decode_clean [OF assms False]
    by simp
qed

text \<open>The statement for the display name \<open>Plates\<close> and the base text \<open>limoges plate\<close>.\<close>

theorem decode_encode_query_name_witness:
  "clean_name ''Plates'' \<and> clean_name ''limoges plate''
   \<and> encode_query_name (Some ''Plates'') (Some ''limoges plate'') = Some ''Plates||limoges plate''
   \<and> decode_query_name (encode_query_name (Some ''Plates'') (Some ''limoges plate''))
       = (Some ''Plates'', Some ''limoges plate'')
   \<and> encode_query_name
        (fst (decode_query_name (encode_query_name (Some ''Plates'') (Some ''limoges plate''))))
        (snd (decode_query_name (encode_query_name (Some ''Plates'') (Some ''limoges plate''))))
       = Some ''Plates||limoges plate''"
proof -
  have c: "clean_name ''Plates''" "clean_name ''limoges plate''"
    by (simp_all add: clean_name_def strip_def strip_chars_def isspace_def
        QUERY_NAME_DELIMITER_def)
  have e: "encode_query_name (Some ''Plates'') (Some ''limoges plate'')
      = Some ''Plates||limoges plate''"
    by (simp add: encode_query_name_def strip_def strip_chars_def isspace_def or_empty_def
        QUERY_NAME_DELIMITER_def)
  show ?thesis
    using decode_encode_query_name [OF c] c e by simp
qed

text \<open>
  C6 as the specification words it fails: a display name with a leading space comes back
  without it.
\<close>

theorem decode_encode_query_name_counterexample:
  "decode_query_name (encode_query_name (Some '' Plates'') (Some ''limoges''))
     = (Some ''Plates'', Some ''limoges'')
   \<and> (Some ''Plates'', Some ''limoges'') \<noteq> (Some '' Plates'', Some ''limoges'')"
  by (simp add: decode_query_name_def encode_query_name_def strip_def strip_chars_def
      isspace_def or_none_def or_empty_def QUERY_NAME_DELIMITER_def)

section \<open>The eBay fetcher\<close>

lemma py_bind_Inr: "py_bind m f = Inr y \<longleftrightarrow> (\<exists>x. m = Inr x \<and> f x = Inr y)"
  by (cases m) (simp_all add: py_bind_def)

subsection \<open>Sold comps and the selling state\<close>

lemma sold_loop_kept: "sold_loop parse items = Inr comps \<Longrightarrow> comps = kept_comps parse items"
proof (induction items arbitrary: comps)
  case Nil
  then show ?case by (simp add: kept_comps_def)
next
  case (Cons item rest)
  from Cons.prems obtain c cs where
    c: "sold_item parse item = Inr c" and cs: "sold_loop parse rest = Inr cs"
    and comps: "comps = (case c of None \<Rightarrow> cs | Some x \<Rightarrow> x # cs)"
    by (auto simp: py_bind_Inr)
  have "cs = kept_comps parse rest" using Cons.IH cs by simp
  then show ?case using c comps by (cases c) (simp_all add: kept_comps_def)
qed

lemma sold_item_kept:
  assumes "sold_item parse item = Inr (Some c)"
  shows "\<exists>state. item_selling_state item = Inr state
           \<and> (state = JStr ''EndedWithSales'' \<or> \<not> truthy state)"
  using assms unfolding sold_item_def item_selling_state_def
  by (auto simp: py_bind_Inr split: if_splits prod.splits)

lemma sold_item_skipped:
  assumes "sold_item parse item = Inr r" "item_selling_state item = Inr state"
    "truthy state" "state \<noteq> JStr ''EndedWithSales''"
  shows "r = None"
  using assms unfolding sold_item_def item_selling_state_def
  by (auto simp: py_bind_Inr split: if_splits prod.splits)

lemma sold_loop_all_return:
  "sold_loop parse items = Inr comps \<Longrightarrow> \<forall>item \<in> set items. \<exists>r. sold_item parse item = Inr r"
  by (induction items arbitrary: comps) (auto simp: py_bind_Inr)

text \<open>
  C7, as the code has it. When \<^verbatim>\<open>fetch_sold_comps\<close> returns, its comps are those of the
  response's items for which the loop builds one, in order; each such item has the selling
  state \<^verbatim>\<open>EndedWithSales\<close> or a state that is false in Python (a missing state is read as
  the empty string); and an item with any other state has no comp.
\<close>

theorem fetch_sold_comps_selling_state:
  assumes "snd (fetch_sold_comps parse self query limit gid) = Inr comps"
  shows "\<exists>items.
      (items = [] \<or>
         py_bind (extract_items
             (snd (perform_request self (sold_params (or_empty (app_id self)) query limit gid)))
             ''findCompletedItemsResponse'') py_iter = Inr items)
    \<and> comps = kept_comps parse items
    \<and> (\<forall>item \<in> set items. \<forall>c. sold_item parse item = Inr (Some c) \<longrightarrow>
          (\<exists>state. item_selling_state item = Inr state
             \<and> (state = JStr ''EndedWithSales'' \<or> \<not> truthy state)))
    \<and> (\<forall>item \<in> set items. \<forall>state. item_selling_state item = Inr state \<and> truthy state
          \<and> state \<noteq> JStr ''EndedWithSales'' \<longrightarrow> sold_item parse item = Inr None)"
proof (cases "\<not> truthy_str (app_id self) \<or> query = []")
  case True
  then have "comps = []" using assms by (auto simp: fetch_sold_comps_def)
  then show ?thesis by (intro exI [of _ "[]"]) (simp add: kept_comps_def)
next
  case False
  define data where
    "data = snd (perform_request self (sold_params (or_empty (app_id self)) query limit gid))"
  have "py_bind (extract_items data ''findCompletedItemsResponse'') (\<lambda>items.
          py_bind (py_iter items) (sold_loop parse)) = Inr comps"
    using assms False by (simp add: fetch_sold_comps_def data_def split: prod.splits)
  then obtain raw items where
    raw: "extract_items data ''findCompletedItemsResponse'' = Inr raw"
    and it: "py_iter raw = Inr items" and loop: "sold_loop parse items = Inr comps"
    by (auto simp: py_bind_Inr)
  have a: "py_bind (extract_items data ''findCompletedItemsResponse'') py_iter = Inr items"
    using raw it by (simp add: py_bind_def)
  have b: "comps = kept_comps parse items" using loop by (rule sold_loop_kept)
  have c: "\<forall>item \<in> set items. \<forall>state. item_selling_state item = Inr state \<and> truthy state
          \<and> state \<noteq> JStr ''EndedWithSales'' \<longrightarrow> sold_item parse item = Inr None"
    using sold_loop_all_return [OF loop] sold_item_skipped by blast
  show ?thesis
    using a b c sold_item_kept unfolding data_def by (intro exI [of _ items]) blast
qed

lemmas sample_defs =
  sample_fetcher_def completed_response_def sample_item_def stateless_item_def sample_float_def

lemmas fetch_defs =
  fetch_sold_comps_def fetch_active_listings_def perform_request_def extract_items_def
  sold_item_def active_item_def selling_status_def price_info_def selling_state_def
  item_field_def item_selling_state_def extract_price_def py_bind_def truthy_str_def
  or_empty_def

text \<open>
  The statement at a response of two items, one ended with a sale and one ended without:
  the call returns the comp of the first only.
\<close>

theorem fetch_sold_comps_selling_state_witness:
  "snd (fetch_sold_comps sample_float
          (sample_fetcher (completed_response
             [sample_item ''plate'' ''EndedWithSales'', sample_item ''cup'' ''EndedWithoutSales'']))
          ''plate'' 30 None)
     = Inr [\<lparr>ListingComp.title = JStr ''plate'', price = Some 40,
              ListingComp.currency = JStr ''EUR'', url = JNull, image = JNull,
              ListingComp.source = ''eBay sold''\<rparr>]
   \<and> item_selling_state (sample_item ''plate'' ''EndedWithSales'') = Inr (JStr ''EndedWithSales'')
   \<and> item_selling_state (sample_item ''cup'' ''EndedWithoutSales'')
       = Inr (JStr ''EndedWithoutSales'')
   \<and> sold_item sample_float (sample_item ''cup'' ''EndedWithoutSales'') = Inr None"
proof -
  have run: "snd (fetch_sold_comps sample_float
          (sample_fetcher (completed_response
             [sample_item ''plate'' ''EndedWithSales'', sample_item ''cup'' ''EndedWithoutSales'']))
          ''plate'' 30 None)
     = Inr [\<lparr>ListingComp.title = JStr ''plate'', price = Some 40,
              ListingComp.currency = JStr ''EUR'', url = JNull, image = JNull,
              ListingComp.source = ''eBay sold''\<rparr>]"
    by (simp add: fetch_defs sample_defs)
  have rest: "item_selling_state (sample_item ''plate'' ''EndedWithSales'')
       = Inr (JStr ''EndedWithSales'')"
    "item_selling_state (sample_item ''cup'' ''EndedWithoutSales'')
       = Inr (JStr ''EndedWithoutSales'')"
    "sold_item sample_float (sample_item ''cup'' ''EndedWithoutSales'') = Inr None"
    by (simp_all add: fetch_defs sample_defs)
  show ?thesis
    using fetch_sold_comps_selling_state [OF run] run rest by simp
qed

text \<open>
  C7 as the specification words it fails: an item whose selling status names no selling
  state is not in the state \<^verbatim>\<open>EndedWithSales\<close>, and its comp is returned.
\<close>

theorem fetch_sold_comps_selling_state_counterexample:
  "snd (fetch_sold_comps sample_float (sample_fetcher (completed_response [stateless_item]))
          ''vase'' 30 None)
     = Inr [\<lparr>ListingComp.title = JStr ''vase'', price = Some 60,
              ListingComp.currency = JStr ''EUR'', url = JNull, image = JNull,
              ListingComp.source = ''eBay sold''\<rparr>]
   \<and> item_selling_state stateless_item = Inr (JStr [])
   \<and> JStr [] \<noteq> JStr ''EndedWithSales''"
  by (simp add: fetch_defs sample_defs)

subsection \<open>Price extraction\<close>

lemma py_float_error:
  "py_float parse v = Inl e \<Longrightarrow>
     e = TypeError \<or> e = ValueError \<or> (e = OverflowError \<and> (\<exists>i. v = JInt i \<and> \<not> float_range i))"
  by (cases v) (auto split: option.splits if_splits)

lemma extract_price_falsy: "\<not> truthy p \<Longrightarrow> extract_price parse p = Inr (None, JNull)"
  by (simp add: extract_price_def)

lemma extract_price_entry_mapping:
  assumes "\<forall>i. map_of kvs ''__value__'' = Some (JInt i) \<longrightarrow> float_range i"
  shows "extract_price parse (JList (JObj kvs # xs)) =
     Inr ((case map_of kvs ''__value__'' of
             None \<Rightarrow> None
           | Some v \<Rightarrow> (case py_float parse v of Inr y \<Rightarrow> Some y | Inl e \<Rightarrow> None)),
          (case map_of kvs ''@currencyId'' of None \<Rightarrow> JNull | Some c \<Rightarrow> c))"
proof (cases "map_of kvs ''__value__''")
  case None
  then show ?thesis by (simp add: extract_price_def py_bind_def)
next
  case (Some v)
  show ?thesis
  proof (cases "py_float parse v")
    case (Inl e)
    then have "e = TypeError \<or> e = ValueError"
      using py_float_error [OF Inl] assms Some by auto
    then show ?thesis using Some Inl by (auto simp: extract_price_def py_bind_def)
  next
    case (Inr y)
    then have "v \<noteq> JNull" by auto
    then show ?thesis using Some Inr by (simp add: extract_price_def py_bind_def)
  qed
qed

lemma extract_price_entry_other:
  "(\<forall>kvs. x \<noteq> JObj kvs) \<Longrightarrow> extract_price parse (JList (x # xs)) = Inr (None, JNull)"
  by (cases x) (simp_all add: extract_price_def py_bind_def)

lemma extract_price_str: "extract_price parse (JStr s) = Inr (None, JNull)"
  by (cases s) (simp_all add: extract_price_def py_bind_def)

lemma extract_price_int: "extract_price parse (JInt n) = Inr (None, JNull)"
  by (simp add: extract_price_def py_bind_def)

lemma extract_price_float: "extract_price parse (JFloat y) = Inr (None, JNull)"
  by (simp add: extract_price_def py_bind_def)

lemma extract_price_bool: "extract_price parse (JBool b) = Inr (None, JNull)"
  by (simp add: extract_price_def py_bind_def)

lemma extract_price_total:
  assumes "\<forall>kvs. p \<noteq> JObj kvs"
    and "\<forall>kvs xs i. p = JList (JObj kvs # xs) \<and> map_of kvs ''__value__'' = Some (JInt i)
           \<longrightarrow> float_range i"
  shows "\<exists>r. extract_price parse p = Inr r"
proof (cases p)
  case (JList ys)
  show ?thesis
  proof (cases ys)
    case Nil
    then show ?thesis using JList by (simp add: extract_price_falsy)
  next
    case (Cons x xs)
    show ?thesis
    proof (cases "\<exists>kvs. x = JObj kvs")
      case True
      then obtain kvs where x: "x = JObj kvs" by blast
      have "\<forall>i. map_of kvs ''__value__'' = Some (JInt i) \<longrightarrow> float_range i"
        using assms(2) JList Cons x by blast
      then show ?thesis
        using JList Cons x extract_price_entry_mapping [of kvs parse xs] by simp
    next
      case False
      then show ?thesis using JList Cons extract_price_entry_other by auto
    qed
  qed
qed (use assms in \<open>simp_all add: extract_price_str extract_price_int extract_price_float
       extract_price_bool extract_price_falsy\<close>)

text \<open>
  A price information that is itself a non-empty dictionary: subscripting it with 0 raises
  \<^verbatim>\<open>KeyError\<close>, which the first \<^verbatim>\<open>try\<close> does not catch.
\<close>

lemma extract_price_mapping_raises:
  "extract_price parse (JObj [(''__value__'', JStr ''12.5''), (''@currencyId'', JStr ''EUR'')])
     = Inl KeyError"
  by (simp add: extract_price_def py_bind_def)

text \<open>
  An entry whose value is an integer too large for a float: \<^verbatim>\<open>float\<close> raises
  \<^verbatim>\<open>OverflowError\<close>, which the last \<^verbatim>\<open>try\<close> does not catch. So at \<open>10 ^ 400\<close>.
\<close>

lemma extract_price_overflow:
  assumes "map_of kvs ''__value__'' = Some (JInt i)" and "\<not> float_range i"
  shows "extract_price parse (JList (JObj kvs # xs)) = Inl OverflowError"
  using assms by (simp add: extract_price_def py_bind_def)

lemma float_range_small: "\<bar>i\<bar> \<le> 2 ^ 64 \<Longrightarrow> float_range i"
proof -
  assume a: "\<bar>i\<bar> \<le> 2 ^ 64"
  have "(2::int) ^ 64 < 2 ^ 970" by (rule power_strict_increasing) simp_all
  moreover have "(2::int) * 2 ^ 970 \<le> 2 ^ 1024"
  proof -
    have "(2::int) * 2 ^ 970 = 2 ^ 971" by simp
    also have "\<dots> \<le> 2 ^ 1024" by (rule power_increasing) simp_all
    finally show ?thesis .
  qed
  ultimately show ?thesis using a by (simp add: float_range_def)
qed

lemma float_range_large: "2 ^ 1024 \<le> \<bar>i\<bar> \<Longrightarrow> \<not> float_range i"
proof -
  assume a: "2 ^ 1024 \<le> \<bar>i\<bar>"
  have "(0::int) < 2 ^ 970" by simp
  then show ?thesis using a by (simp add: float_range_def)
qed

lemma extract_price_overflow_sample:
  "extract_price parse
     (JList [JObj [(''__value__'', JInt (10 ^ 400)), (''@currencyId'', JStr ''EUR'')]])
     = Inl OverflowError"
proof -
  have big: "(2::int) ^ 1024 \<le> \<bar>10 ^ 400\<bar>"
  proof -
    have "(2::int) ^ 1024 \<le> 2 ^ 1200" by (rule power_increasing) simp_all
    also have "(2::int) ^ 1200 = (2 ^ 3) ^ 400" by (simp only: power_mult [symmetric]) simp
    also have "\<dots> \<le> 10 ^ 400" by (rule power_mono) simp_all
    finally show ?thesis by simp
  qed
  show ?thesis
    by (rule extract_price_overflow [OF _ float_range_large [OF big]]) simp
qed

text \<open>
  C8, as the code has it. On every price information that is not a dictionary, and whose
  first entry does not give an integer too large for a float as its value, the extraction
  returns. The result is (none, none) for a price information that is false in Python, for
  a list whose first entry is not a dictionary, and for a string, a number or a truth
  value. For a list whose first entry is a dictionary, with no such integer as its value,
  the price is the \<^verbatim>\<open>__value__\<close> field as a float, none where the field is missing, null or
  cannot be converted, and the currency is the \<^verbatim>\<open>@currencyId\<close> field, none where it is
  missing.
\<close>

theorem extract_price_shapes:
  "(\<not> truthy p \<longrightarrow> extract_price parse p = Inr (None, JNull))
   \<and> ((\<forall>kvs. p \<noteq> JObj kvs)
        \<and> (\<forall>kvs xs i. p = JList (JObj kvs # xs) \<and> map_of kvs ''__value__'' = Some (JInt i)
              \<longrightarrow> float_range i)
      \<longrightarrow> (\<exists>r. extract_price parse p = Inr r))
   \<and> ((\<forall>kvs. x \<noteq> JObj kvs) \<longrightarrow> extract_price parse (JList (x # xs)) = Inr (None, JNull))
   \<and> ((\<forall>i. map_of kvs ''__value__'' = Some (JInt i) \<longrightarrow> float_range i)
      \<longrightarrow> extract_price parse (JList (JObj kvs # xs)) =
         Inr ((case map_of kvs ''__value__'' of
                 None \<Rightarrow> None
               | Some v \<Rightarrow> (case py_float parse v of Inr y \<Rightarrow> Some y | Inl e \<Rightarrow> None)),
              (case map_of kvs ''@currencyId'' of None \<Rightarrow> JNull | Some c \<Rightarrow> c)))
   \<and> extract_price parse (JStr s) = Inr (None, JNull)
   \<and> extract_price parse (JInt n) = Inr (None, JNull)
   \<and> extract_price parse (JFloat y) = Inr (None, JNull)
   \<and> extract_price parse (JBool b) = Inr (None, JNull)"
  using extract_price_falsy [of p parse] extract_price_total [of p parse]
    extract_price_entry_other [of x parse xs] extract_price_entry_mapping [of kvs parse xs]
    extract_price_str [of parse s] extract_price_int [of parse n]
    extract_price_float [of parse y] extract_price_bool [of parse b]
  by blast

text \<open>
  The statement at an absent price information, at a list whose entry is a string, and at
  lists whose entry has a value that is not a numeral, a numeral, and an integer.
\<close>

theorem extract_price_shapes_witness:
  "\<not> truthy JNull
   \<and> extract_price sample_float JNull = Inr (None, JNull)
   \<and> (\<exists>r. extract_price sample_float (JList [JObj [(''__value__'', JInt 40)]]) = Inr r)
   \<and> extract_price sample_float (JList [JStr ''12.5'']) = Inr (None, JNull)
   \<and> extract_price sample_float (JList [JObj [(''__value__'', JStr ''n/a'')]])
       = Inr (None, JNull)
   \<and> extract_price sample_float
        (JList [JObj [(''__value__'', JStr ''12.5''), (''@currencyId'', JStr ''EUR'')]])
       = Inr (Some (25 / 2), JStr ''EUR'')
   \<and> extract_price sample_float
        (JList [JObj [(''__value__'', JInt 40), (''@currencyId'', JStr ''EUR'')]])
       = Inr (Some 40, JStr ''EUR'')"
  using extract_price_shapes
    [of JNull sample_float "JStr ''12.5''" "[]" "[(''__value__'', JStr ''n/a'')]" "[]"]
    extract_price_shapes
    [of "JList [JObj [(''__value__'', JInt 40)]]" sample_float "JStr ''12.5''" "[]"
      "[(''__value__'', JStr ''12.5''), (''@currencyId'', JStr ''EUR'')]" "[]"]
    extract_price_shapes
    [of JNull sample_float "JStr ''12.5''" "[]"
      "[(''__value__'', JInt 40), (''@currencyId'', JStr ''EUR'')]" "[]"]
    float_range_small [of 40]
  by (simp add: sample_float_def)

text \<open>
  C8 as the specification words it fails: an entry with a currency and no value gives
  (none, EUR), not (none, none).
\<close>

theorem extract_price_shapes_counterexample:
  "extract_price sample_float (JList [JObj [(''@currencyId'', JStr ''EUR'')]])
     = Inr (None, JStr ''EUR'')
   \<and> JStr ''EUR'' \<noteq> JNull"
  by (simp add: extract_price_def py_bind_def)

subsection \<open>Page size\<close>

text \<open>
  C9. Whatever the requested limit, every request that \<^verbatim>\<open>fetch_sold_comps\<close> or
  \<^verbatim>\<open>fetch_active_listings\<close> sends carries as \<^verbatim>\<open>paginationInput.entriesPerPage\<close> the decimal
  numeral of the limit clamped to the interval from 1 to 100.
\<close>

theorem page_size_clamped:
  "\<forall>req \<in> set (fst (fetch_sold_comps parse self query limit gid))
            \<union> set (fst (fetch_active_listings parse self query limit gid)).
     \<exists>n. map_of (fst (snd req)) ''paginationInput.entriesPerPage'' = Some (str_int n)
        \<and> n = max 1 (min limit 100) \<and> 1 \<le> n \<and> n \<le> 100"
  by (auto simp: fetch_sold_comps_def fetch_active_listings_def perform_request_def
      sold_params_def active_params_def split: prod.splits)

text \<open>
  The statement at the limits 500 and -3: one request each, with the page sizes 100 and 1.
\<close>

theorem page_size_clamped_witness:
  "(\<exists>params. fst (fetch_sold_comps sample_float (sample_fetcher (JObj [])) ''plate'' 500 None)
        = [(ENDPOINT, params, 12)]
      \<and> map_of params ''paginationInput.entriesPerPage'' = Some ''100'')
   \<and> (\<exists>params. fst (fetch_active_listings sample_float (sample_fetcher (JObj [])) ''plate'' (- 3)
          (Some ''EBAY-DE''))
        = [(ENDPOINT, params, 12)]
      \<and> map_of params ''paginationInput.entriesPerPage'' = Some ''1'')"
  using page_size_clamped [of sample_float "sample_fetcher (JObj [])" "''plate''" 500 None]
    page_size_clamped
      [of sample_float "sample_fetcher (JObj [])" "''plate''" "- 3" "Some ''EBAY-DE''"]
  by (simp add: fetch_sold_comps_def fetch_active_listings_def perform_request_def
      sold_params_def active_params_def sample_fetcher_def truthy_str_def or_empty_def
      str_int_def digit_char_def)

section \<open>The best fuzzy match\<close>

lemma extract_loop_None:
  "extract_loop scorer q zs best = None \<longleftrightarrow> best = None \<and> (\<forall>z \<in> set zs. scorer q (fst z) < 0)"
  by (induction scorer q zs best rule: extract_loop.induct) (auto simp: Let_def not_le)

lemma extract_loop_Some:
  "extract_loop scorer q zs best = Some (c, s, i) \<Longrightarrow>
     (best = Some (c, s, i) \<or> ((c, i) \<in> set zs \<and> s = scorer q c))
     \<and> (\<forall>z \<in> set zs. scorer q (fst z) \<le> s \<or> scorer q (fst z) < 0)
     \<and> (\<forall>c0 s0 i0. best = Some (c0, s0, i0) \<longrightarrow> s0 \<le> s)"
proof (induction scorer q zs best rule: extract_loop.induct)
  case (1 scorer query best)
  then show ?case by simp
next
  case (2 scorer query choice j rest best)
  show ?case
  proof (cases "0 \<le> scorer query choice
      \<and> (case best of None \<Rightarrow> True | Some (_, best_score, _) \<Rightarrow> best_score < scorer query choice)")
    case True
    then have "extract_loop scorer query rest (Some (choice, scorer query choice, j)) = Some (c, s, i)"
      using "2.prems" by (simp add: Let_def)
    from "2.IH"(1) [OF refl True this] True show ?thesis
      by (auto split: option.splits)
  next
    case False
    then have "extract_loop scorer query rest best = Some (c, s, i)"
      using "2.prems" by (auto simp: Let_def split: if_splits)
    from "2.IH"(2) [OF refl False this] False show ?thesis
      by (cases best) (auto simp: not_le not_less)
  qed
qed

lemma set_zip_upt_fst: "fst ` set (zip xs [0..<length xs]) = set xs"
proof -
  have "map fst (zip xs [0..<length xs]) = xs" by simp
  then show ?thesis by (metis set_map)
qed

lemma extractOne_None:
  assumes "\<forall>a b. 0 \<le> scorer a b"
  shows "extractOne scorer q choices = None \<longleftrightarrow> choices = []"
proof
  assume "extractOne scorer q choices = None"
  then have neg: "\<forall>z \<in> set (zip choices [0..<length choices]). scorer q (fst z) < 0"
    by (simp add: extractOne_def extract_loop_None)
  show "choices = []"
  proof (rule ccontr)
    assume "choices \<noteq> []"
    then obtain x where "x \<in> set choices" by (cases choices) auto
    then have "x \<in> fst ` set (zip choices [0..<length choices])"
      by (simp only: set_zip_upt_fst)
    then obtain z where "z \<in> set (zip choices [0..<length choices])" by auto
    then have "scorer q (fst z) < 0" using neg by blast
    moreover have "0 \<le> scorer q (fst z)" using assms by blast
    ultimately show False by simp
  qed
next
  assume "choices = []"
  then show "extractOne scorer q choices = None" by (simp add: extractOne_def)
qed

lemma extractOne_Some:
  assumes "\<forall>a b. 0 \<le> scorer a b" "extractOne scorer q choices = Some (c, s, i)"
  shows "c \<in> set choices \<and> s = scorer q c \<and> (\<forall>t \<in> set choices. scorer q t \<le> s)"
proof -
  note L = extract_loop_Some [OF assms(2) [unfolded extractOne_def]]
  have mem: "(c, i) \<in> set (zip choices [0..<length choices])" and s: "s = scorer q c"
    using L by auto
  have "c \<in> fst ` set (zip choices [0..<length choices])" using mem by force
  then have c: "c \<in> set choices" by (simp only: set_zip_upt_fst)
  have "scorer q t \<le> s" if "t \<in> set choices" for t
  proof -
    from that have "t \<in> fst ` set (zip choices [0..<length choices])"
      by (simp only: set_zip_upt_fst)
    then obtain z where "z \<in> set (zip choices [0..<length choices])" "fst z = t" by auto
    then have "scorer q t \<le> s \<or> scorer q t < 0" using L by blast
    then show ?thesis using assms(1) by (auto simp: not_less [symmetric])
  qed
  then show ?thesis using c s by blast
qed

lemma match_candidate_None:
  assumes "\<forall>a b. 0 \<le> scorer a b" "targets \<noteq> []"
  shows "match_candidate table scorer targets threshold src candidate best = None \<longleftrightarrow>
      best = None \<and> (normalize_text table candidate \<noteq> [] \<longrightarrow>
        (\<forall>t \<in> set (map fst targets). scorer (normalize_text table candidate) t < of_int threshold))"
proof (cases "normalize_text table candidate = []")
  case True
  then show ?thesis by (simp add: match_candidate_def)
next
  case False
  have ne: "map fst targets \<noteq> []" using assms(2) by simp
  then obtain c s i where E: "extractOne scorer (normalize_text table candidate) (map fst targets)
      = Some (c, s, i)"
    using extractOne_None [OF assms(1), of "normalize_text table candidate" "map fst targets"]
    by (cases "extractOne scorer (normalize_text table candidate) (map fst targets)") auto
  note P = extractOne_Some [OF assms(1) E]
  show ?thesis
  proof (cases "s < of_int threshold")
    case True
    then have "\<forall>t \<in> set (map fst targets).
        scorer (normalize_text table candidate) t < of_int threshold"
      using P by fastforce
    then show ?thesis using False E True by (simp add: match_candidate_def)
  next
    case False
    then have "\<not> (\<forall>t \<in> set (map fst targets).
        scorer (normalize_text table candidate) t < of_int threshold)"
      using P by blast
    then show ?thesis
      using \<open>normalize_text table candidate \<noteq> []\<close> E False
      by (cases best) (auto simp: match_candidate_def)
  qed
qed

lemma match_candidate_score:
  assumes "\<forall>b. best = Some b \<longrightarrow> of_int threshold \<le> score b"
    "match_candidate table scorer targets threshold src candidate best = Some r"
  shows "of_int threshold \<le> score r"
  using assms unfolding match_candidate_def Let_def
  by (auto split: if_splits option.splits prod.splits)

text \<open>
  C5. For a scorer that gives no negative score, \<^verbatim>\<open>find_best_fuzzy_match\<close> returns none
  exactly when the title and the brand, as far as their normalised text is not empty and
  they are scored at all, score below the threshold against every target; and a result
  it returns has a score of at least the threshold. Without a base text there is no
  target.
\<close>

theorem find_best_fuzzy_match_threshold:
  assumes "\<forall>a b. 0 \<le> scorer a b"
  shows "(find_best_fuzzy_match table scorer base title0 brand0 threshold = None \<longleftrightarrow>
        (\<forall>candidate \<in> {title0, brand0}.
           \<forall>t \<in> set (case base of None \<Rightarrow> [] | Some b \<Rightarrow> map fst (build_fuzzy_targets table b)).
             normalize_text table candidate \<noteq> [] \<longrightarrow>
             scorer (normalize_text table candidate) t < of_int threshold))
    \<and> (\<forall>r. find_best_fuzzy_match table scorer base title0 brand0 threshold = Some r
          \<longrightarrow> of_int threshold \<le> score r)"
proof (cases base)
  case None
  then show ?thesis by (simp add: find_best_fuzzy_match_def)
next
  case (Some b)
  show ?thesis
  proof (cases "b = [] \<or> build_fuzzy_targets table b = []")
    case True
    have "build_fuzzy_targets table [] = []"
      by (simp add: build_fuzzy_targets_def normalize_text_def)
    then have "build_fuzzy_targets table b = []" using True by auto
    then show ?thesis using Some True by (auto simp: find_best_fuzzy_match_def)
  next
    case False
    define targets where "targets = build_fuzzy_targets table b"
    have ne: "targets \<noteq> []" using False targets_def by simp
    define m1 where "m1 = match_candidate table scorer targets threshold ''title'' title0 None"
    have F: "find_best_fuzzy_match table scorer base title0 brand0 threshold
        = match_candidate table scorer targets threshold ''brand'' brand0 m1"
      using Some False by (simp add: find_best_fuzzy_match_def targets_def m1_def Let_def)
    have s1: "\<forall>r. m1 = Some r \<longrightarrow> of_int threshold \<le> score r"
      unfolding m1_def using match_candidate_score [of None] by blast
    have part2: "\<forall>r. find_best_fuzzy_match table scorer base title0 brand0 threshold = Some r
          \<longrightarrow> of_int threshold \<le> score r"
      unfolding F using match_candidate_score [OF s1] by blast
    have part1: "find_best_fuzzy_match table scorer base title0 brand0 threshold = None \<longleftrightarrow>
        (\<forall>candidate \<in> {title0, brand0}. \<forall>t \<in> set (map fst targets).
             normalize_text table candidate \<noteq> [] \<longrightarrow>
             scorer (normalize_text table candidate) t < of_int threshold)"
      unfolding F m1_def
      using match_candidate_None [OF assms ne] by auto
    show ?thesis using part1 part2 Some by (simp add: targets_def)
  qed
qed

text \<open>
  The statement for the base text \<open>limoges plate\<close> and the threshold 72: the title
  \<open>Limoges\<close> matches the target \<open>limoges\<close> with the score 100, and the title \<open>vase\<close> with
  the brand \<open>Sevres\<close> matches nothing.
\<close>

theorem find_best_fuzzy_match_threshold_witness:
  "(\<forall>a b. 0 \<le> exact_scorer a b)
   \<and> map fst (build_fuzzy_targets ascii_table ''limoges plate'')
       = [''limoges plate'', ''limoges'', ''plate'']
   \<and> find_best_fuzzy_match ascii_table exact_scorer (Some ''limoges plate'') (Some ''Limoges'')
        None 72
       = Some \<lparr>score = 100, FuzzyMatch.source = ''title'', target = ''limoges'',
                source_text = Some ''Limoges''\<rparr>
   \<and> find_best_fuzzy_match ascii_table exact_scorer (Some ''limoges plate'') (Some ''vase'')
        (Some ''Sevres'') 72
       = None"
proof -
  have nn: "\<forall>a b. 0 \<le> exact_scorer a b" by (simp add: exact_scorer_def)
  have t: "map fst (build_fuzzy_targets ascii_table ''limoges plate'')
      = [''limoges plate'', ''limoges'', ''plate'']"
    by code_simp
  have a: "find_best_fuzzy_match ascii_table exact_scorer (Some ''limoges plate'')
      (Some ''Limoges'') None 72
      = Some \<lparr>score = 100, FuzzyMatch.source = ''title'', target = ''limoges'',
               source_text = Some ''Limoges''\<rparr>"
    by code_simp
  have b: "find_best_fuzzy_match ascii_table exact_scorer (Some ''limoges plate'')
      (Some ''vase'') (Some ''Sevres'') 72 = None"
    by code_simp
  show ?thesis
    using find_best_fuzzy_match_threshold
      [OF nn, of ascii_table "Some ''limoges plate''" "Some ''Limoges''" None 72]
      nn t a b
    by simp
qed

section \<open>Characters, words and normalisation\<close>

lemma of_char_lower:
  "(of_char (py_lower_char c) :: nat) =
     (if (65 \<le> (of_char c :: nat) \<and> (of_char c :: nat) \<le> 90)
         \<or> (192 \<le> (of_char c :: nat) \<and> (of_char c :: nat) \<le> 222 \<and> (of_char c :: nat) \<noteq> 215)
      then of_char c + 32 else of_char c)"
  by (auto simp: py_lower_char_def Let_def)

lemma char_eq_of_char: "c = d \<longleftrightarrow> (of_char c :: nat) = of_char d"
  by simp

lemma isspace_of_char:
  "isspace c \<longleftrightarrow> (of_char c :: nat) \<in> {9, 10, 11, 12, 13, 28, 29, 30, 31, 32, 133, 160}"
  unfolding isspace_def by (simp add: char_eq_of_char [of c])

lemma separator_of_char:
  "c \<in> {CHR ''-'', CHR ''_'', CHR ''&'', CHR 0x27} \<longleftrightarrow> (of_char c :: nat) \<in> {45, 95, 38, 39}"
  by (simp add: char_eq_of_char [of c])

lemma lower_idem: "py_lower_char (py_lower_char c) = py_lower_char c"
  by (simp add: char_eq_of_char [of "py_lower_char (py_lower_char c)"] of_char_lower)

lemma isspace_lower: "isspace (py_lower_char c) \<longleftrightarrow> isspace c"
  by (auto simp: isspace_of_char of_char_lower)

lemma is_ascii_lower: "is_ascii (py_lower_char c) \<longleftrightarrow> is_ascii c"
  by (auto simp: is_ascii_def of_char_lower)

lemma separator_lower:
  "py_lower_char c \<in> {CHR ''-'', CHR ''_'', CHR ''&'', CHR 0x27}
     \<longleftrightarrow> c \<in> {CHR ''-'', CHR ''_'', CHR ''&'', CHR 0x27}"
  unfolding separator_of_char by (auto simp: of_char_lower)



lemma replace_single: "replace [a] [b] s = map (\<lambda>c. if c = a then b else c) s"
  by (induction s) auto

lemma folded_chars:
  "py_lower (replace [CHR 0x27] '' '' (replace ''&'' '' '' (replace ''_'' '' ''
     (replace ''-'' '' '' s)))) = map fold_char s"
  by (induction s) (auto simp: replace_single py_lower_def fold_char_def)

lemma normalize_text_Some:
  "t \<noteq> [] \<Longrightarrow>
   normalize_text table (Some t) = join_space (py_split (map fold_char (unidecode table t)))"
  by (simp add: normalize_text_def folded_chars)

lemma normalize_text_Nil: "normalize_text table (Some []) = []"
  by (simp add: normalize_text_def)

lemma split_from_tokens:
  "tok \<in> set (split_from w s) \<Longrightarrow> \<forall>c \<in> set w. \<not> isspace c \<Longrightarrow>
   tok \<noteq> [] \<and> (\<forall>c \<in> set tok. \<not> isspace c \<and> c \<in> set w \<union> set s)"
proof (induction s arbitrary: w)
  case Nil
  then show ?case by (auto split: if_splits)
next
  case (Cons a s)
  show ?case
  proof (cases "isspace a")
    case True
    then have "tok = w \<and> w \<noteq> [] \<or> tok \<in> set (split_from [] s)"
      using Cons.prems(1) by (auto split: if_splits)
    then show ?thesis
    proof
      assume "tok = w \<and> w \<noteq> []"
      then show ?thesis using Cons.prems(2) by auto
    next
      assume "tok \<in> set (split_from [] s)"
      from Cons.IH [OF this] show ?thesis by auto
    qed
  next
    case False
    then have "tok \<in> set (split_from (w @ [a]) s)" using Cons.prems(1) by simp
    from Cons.IH [OF this] False Cons.prems(2) show ?thesis by auto
  qed
qed

lemma py_split_tokens:
  "tok \<in> set (py_split s) \<Longrightarrow> tok \<noteq> [] \<and> (\<forall>c \<in> set tok. \<not> isspace c \<and> c \<in> set s)"
  using split_from_tokens [of tok "[]" s] by (simp add: py_split_def)

lemma split_from_word:
  "\<forall>c \<in> set v. \<not> isspace c \<Longrightarrow> split_from w (v @ s) = split_from (w @ v) s"
  by (induction v arbitrary: w) simp_all

lemma split_join:
  "\<forall>t \<in> set ts. t \<noteq> [] \<and> (\<forall>c \<in> set t. \<not> isspace c) \<Longrightarrow> py_split (join_space ts) = ts"
proof (induction ts rule: join_space.induct)
  case 1
  then show ?case by (simp add: py_split_def)
next
  case (2 w)
  then show ?case using split_from_word [of w "[]" "[]"] by (simp add: py_split_def)
next
  case (3 w v ws)
  have sp: "isspace CHR '' ''" by (simp add: isspace_def)
  have "split_from [] (w @ CHR '' '' # join_space (v # ws))
      = split_from w (CHR '' '' # join_space (v # ws))"
    using split_from_word [of w "[]" "CHR '' '' # join_space (v # ws)"] "3.prems" by simp
  also have "\<dots> = w # split_from [] (join_space (v # ws))"
    using sp "3.prems" by simp
  also have "\<dots> = w # v # ws"
    using "3.IH" "3.prems" by (simp add: py_split_def)
  finally show ?case by (simp add: py_split_def)
qed

lemma join_space_Nil_iff:
  "\<forall>t \<in> set ts. t \<noteq> [] \<Longrightarrow> join_space ts = [] \<longleftrightarrow> ts = []"
  by (induction ts rule: join_space.induct) auto

lemma set_join_space: "set (join_space ts) \<subseteq> (\<Union>t \<in> set ts. set t) \<union> {CHR '' ''}"
  by (induction ts rule: join_space.induct) auto

lemma hd_join_space: "ts \<noteq> [] \<Longrightarrow> hd ts \<noteq> [] \<Longrightarrow> hd (join_space ts) = hd (hd ts)"
  by (induction ts rule: join_space.induct) auto

lemma last_join_space:
  "ts \<noteq> [] \<Longrightarrow> \<forall>t \<in> set ts. t \<noteq> [] \<Longrightarrow> last (join_space ts) = last (last ts)"
proof (induction ts rule: join_space.induct)
  case (3 w v ws)
  then have "join_space (v # ws) \<noteq> []" using join_space_Nil_iff [of "v # ws"] by simp
  then show ?case using 3 by simp
qed simp_all

lemma plain_char_table: "unidecode_ascii table \<Longrightarrow> is_ascii c \<Longrightarrow> table c = [c]"
  by (simp add: unidecode_ascii_def)

lemma unidecode_id:
  "unidecode_ascii table \<Longrightarrow> \<forall>c \<in> set s. is_ascii c \<Longrightarrow> unidecode table s = s"
  by (induction s) (simp_all add: unidecode_def plain_char_table)

lemma unidecode_is_ascii:
  "unidecode_ascii table \<Longrightarrow> c \<in> set (unidecode table s) \<Longrightarrow> is_ascii c"
  by (auto simp: unidecode_def unidecode_ascii_def)

lemma fold_char_plain: "plain_char c \<Longrightarrow> fold_char c = c"
  by (simp add: plain_char_def fold_char_def)

lemma fold_char_space: "fold_char CHR '' '' = CHR '' ''"
  by (simp add: fold_char_def py_lower_char_def)

lemma is_ascii_space: "is_ascii CHR '' ''"
  by (simp add: is_ascii_def)

lemma plain_fold_char:
  assumes "is_ascii d" "\<not> isspace (fold_char d)"
  shows "plain_char (fold_char d)"
proof (cases "d \<in> {CHR ''-'', CHR ''_'', CHR ''&'', CHR 0x27}")
  case True
  then have "fold_char d = CHR '' ''" by (simp add: fold_char_def py_lower_char_def)
  then show ?thesis using assms(2) by (simp add: isspace_def)
next
  case False
  then have f: "fold_char d = py_lower_char d" by (simp add: fold_char_def)
  show ?thesis
    unfolding plain_char_def f
    using assms False separator_lower [of d]
    by (simp add: is_ascii_lower lower_idem f)
qed

lemma plain_char_ascii: "plain_char c \<Longrightarrow> is_ascii c"
  by (simp add: plain_char_def)

lemma plain_char_not_space: "plain_char c \<Longrightarrow> \<not> isspace c"
  by (simp add: plain_char_def)

lemma plain_tokens_join:
  assumes "\<forall>t \<in> set ts. plain_token t"
  shows "\<forall>c \<in> set (join_space ts). plain_char c \<or> c = CHR '' ''"
  using assms set_join_space [of ts] by (auto simp: plain_token_def)

lemma normalize_join:
  assumes "unidecode_ascii table" "ts \<noteq> []" "\<forall>t \<in> set ts. plain_token t"
  shows "normalize_text table (Some (join_space ts)) = join_space ts"
proof -
  note chars = plain_tokens_join [OF assms(3)]
  have ne: "join_space ts \<noteq> []"
    using join_space_Nil_iff [of ts] assms by (auto simp: plain_token_def)
  have "\<forall>c \<in> set (join_space ts). is_ascii c"
    using chars plain_char_ascii is_ascii_space by blast
  then have u: "unidecode table (join_space ts) = join_space ts"
    using unidecode_id assms(1) by blast
  have "\<forall>c \<in> set (join_space ts). fold_char c = c"
    using chars fold_char_plain fold_char_space by blast
  then have f: "map fold_char (join_space ts) = join_space ts"
    by (simp add: map_idI)
  have s: "py_split (join_space ts) = ts"
    using assms(3) plain_char_not_space by (intro split_join) (auto simp: plain_token_def)
  show ?thesis by (simp add: normalize_text_Some [OF ne] u f s)
qed

lemma strip_join:
  assumes "ts \<noteq> []" "\<forall>t \<in> set ts. plain_token t"
  shows "strip (join_space ts) = join_space ts"
proof -
  have ne: "join_space ts \<noteq> []"
    using join_space_Nil_iff [of ts] assms by (auto simp: plain_token_def)
  have h: "hd (join_space ts) = hd (hd ts)"
    using assms by (intro hd_join_space) (auto simp: plain_token_def)
  have l: "last (join_space ts) = last (last ts)"
    using assms by (intro last_join_space) (auto simp: plain_token_def)
  have "hd ts \<in> set ts" "last ts \<in> set ts" using assms(1) by simp_all
  then have "plain_token (hd ts)" "plain_token (last ts)" using assms(2) by blast+
  then have "\<not> isspace (hd (hd ts))" "\<not> isspace (last (last ts))"
    using plain_char_not_space by (auto simp: plain_token_def)
  then show ?thesis
    unfolding strip_def using ne h l by (intro strip_chars_id) simp_all
qed

lemma base_tokens_plain:
  assumes "unidecode_ascii table"
  shows "\<forall>t \<in> set (py_split (map fold_char (unidecode table base))). plain_token t"
proof
  fix t assume t: "t \<in> set (py_split (map fold_char (unidecode table base)))"
  note T = py_split_tokens [OF t]
  have "plain_char c" if "c \<in> set t" for c
  proof -
    from T that have ns: "\<not> isspace c" and "c \<in> set (map fold_char (unidecode table base))"
      by auto
    then obtain d where d: "d \<in> set (unidecode table base)" "c = fold_char d" by auto
    then have "is_ascii d" using unidecode_is_ascii [OF assms] by blast
    then show ?thesis using plain_fold_char d ns by blast
  qed
  then show "plain_token t" using T by (simp add: plain_token_def)
qed

lemma normalized_tokens:
  assumes "unidecode_ascii table" "base \<noteq> []"
  shows "py_split (normalize_text table (Some base))
      = py_split (map fold_char (unidecode table base))"
proof -
  have "\<forall>t \<in> set (py_split (map fold_char (unidecode table base))).
      t \<noteq> [] \<and> (\<forall>c \<in> set t. \<not> isspace c)"
    using py_split_tokens by blast
  then show ?thesis
    by (simp add: normalize_text_Some [OF assms(2)] split_join)
qed

section \<open>The search for variants keeps its invariant\<close>

lemma set_iteration_set: "set (set_iteration rank xs) = set xs"
  by (simp add: set_iteration_def)

lemma replacement_chars_plain:
  "\<forall>kv \<in> set WORD_SUBSTITUTIONS. \<forall>r \<in> set (snd kv). \<forall>c \<in> set r. plain_char c"
  by (simp add: WORD_SUBSTITUTIONS_def plain_char_def is_ascii_def isspace_def py_lower_char_def)

lemma dropped_doubles_chars: "v \<in> set (dropped_doubles w) \<Longrightarrow> set v \<subseteq> set w"
  by (auto simp: dropped_doubles_def dest: in_set_takeD in_set_dropD)

lemma swapped_neighbours_chars: "v \<in> set (swapped_neighbours w) \<Longrightarrow> set v \<subseteq> set w"
  by (auto simp: swapped_neighbours_def dest: in_set_takeD in_set_dropD)

lemma substituted_chars:
  assumes "v \<in> set (substituted w)" "c \<in> set v"
  shows "c \<in> set w \<or> plain_char c"
proof -
  from assms(1) obtain p rs found r where
    kv: "(p, rs) \<in> set WORD_SUBSTITUTIONS" and r: "r \<in> set rs"
    and v: "v = take found w @ r @ drop (found + length p) w"
    by (auto simp: substituted_def)
  from assms(2) v have "c \<in> set (take found w) \<or> c \<in> set r \<or> c \<in> set (drop (found + length p) w)"
    by auto
  then show ?thesis
    using kv r replacement_chars_plain by (auto dest: in_set_takeD in_set_dropD)
qed

lemma variant_plain:
  assumes "plain_token w" "v \<in> set (generate_word_variants rank w)"
  shows "plain_token v"
proof -
  from assms(2) have ne: "v \<noteq> []"
    and mem: "v \<in> set (dropped_doubles w) \<or> v \<in> set (swapped_neighbours w)
        \<or> v \<in> set (substituted w)"
    by (auto simp: generate_word_variants_def set_iteration_set split: if_splits)
  have "plain_char c" if "c \<in> set v" for c
  proof -
    have "c \<in> set w \<or> plain_char c"
      using mem that dropped_doubles_chars swapped_neighbours_chars substituted_chars by blast
    then show ?thesis using assms(1) by (auto simp: plain_token_def)
  qed
  then show ?thesis using ne by (simp add: plain_token_def)
qed

lemma add_variant_plain:
  assumes "unidecode_ascii table" "plain_tokens ts"
  shows "add_variant table collected (join_space ts) =
      (if join_space ts \<in> fst ` set collected then collected
       else collected @ [(join_space ts, join_space ts)])"
proof -
  have ts: "ts \<noteq> []" "\<forall>t \<in> set ts. plain_token t" using assms(2) by (simp_all add: plain_tokens_def)
  have n: "normalize_text table (Some (join_space ts)) = join_space ts"
    using normalize_join [OF assms(1) ts] .
  have s: "strip (join_space ts) = join_space ts" using strip_join [OF ts] .
  have ne: "join_space ts \<noteq> []"
    using join_space_Nil_iff [of ts] ts by (auto simp: plain_token_def)
  show ?thesis by (simp add: add_variant_def n s ne Let_def)
qed

lemma add_variant_inv:
  assumes "unidecode_ascii table" "plain_tokens ts" "search_inv table seeds collected"
  shows "search_inv table seeds (add_variant table collected (join_space ts))"
proof (cases "join_space ts \<in> fst ` set collected")
  case True
  then show ?thesis using assms by (simp add: add_variant_plain)
next
  case False
  have ts: "ts \<noteq> []" "\<forall>t \<in> set ts. plain_token t" using assms(2) by (simp_all add: plain_tokens_def)
  have n: "normalize_text table (Some (join_space ts)) = join_space ts"
    using normalize_join [OF assms(1) ts] .
  from assms(3) obtain added where d: "distinct (map fst collected)"
    and c: "collected = seeds @ added"
    and a: "\<forall>kv \<in> set added. snd kv = fst kv \<and> normalize_text table (Some (fst kv)) = fst kv"
    unfolding search_inv_def by blast
  have "distinct (map fst (collected @ [(join_space ts, join_space ts)]))"
    using d False by simp
  moreover have "collected @ [(join_space ts, join_space ts)]
      = seeds @ (added @ [(join_space ts, join_space ts)])"
    using c by simp
  moreover have "\<forall>kv \<in> set (added @ [(join_space ts, join_space ts)]).
      snd kv = fst kv \<and> normalize_text table (Some (fst kv)) = fst kv"
    using a n by simp
  ultimately have "search_inv table seeds (collected @ [(join_space ts, join_space ts)])"
    unfolding search_inv_def by blast
  then show ?thesis using False assms by (simp add: add_variant_plain)
qed

lemma plain_tokens_update:
  assumes "plain_tokens tokens" "plain_token cand"
  shows "plain_tokens (tokens[idx := cand])"
proof -
  have "set (tokens[idx := cand]) \<subseteq> insert cand (set tokens)" by (rule set_update_subset_insert)
  then show ?thesis using assms by (auto simp: plain_tokens_def)
qed

lemma candidates_loop_inv:
  assumes "unidecode_ascii table" "plain_tokens tokens" "\<forall>cand \<in> set cands. plain_token cand"
    "search_inv table seeds c" "plain_queue q"
  shows "search_inv table seeds (fst (candidates_loop table tokens depth idx cands (c, s, q)))
    \<and> plain_queue (snd (snd (candidates_loop table tokens depth idx cands (c, s, q))))"
  using assms(3-5)
proof (induction cands arbitrary: c s q)
  case Nil
  then show ?case by simp
next
  case (Cons cand rest)
  define nt where "nt = tokens[idx := cand]"
  have nt: "plain_tokens nt"
    unfolding nt_def using assms(2) Cons.prems(1) by (intro plain_tokens_update) simp_all
  have inv': "search_inv table seeds (add_variant table c (join_space nt))"
    using add_variant_inv [OF assms(1) nt Cons.prems(2)] .
  have q': "plain_queue (if depth < 1 then q @ [(nt, depth + 1)] else q)"
    using Cons.prems(3) nt by (auto simp: plain_queue_def)
  have rest: "\<forall>cand \<in> set rest. plain_token cand" using Cons.prems(1) by simp
  show ?case
    using Cons.IH [OF rest Cons.prems(2) Cons.prems(3), of s]
      Cons.IH [OF rest inv' q', of "s @ [join_space nt]"] inv' Cons.prems(3)
    by (simp add: Let_def nt_def [symmetric])
qed

lemma tokens_loop_inv:
  assumes "unidecode_ascii table" "plain_tokens tokens" "\<forall>i \<in> set idxs. i < length tokens"
    "search_inv table seeds c" "plain_queue q"
  shows "search_inv table seeds (fst (tokens_loop table rank tokens depth idxs (c, s, q)))
    \<and> plain_queue (snd (snd (tokens_loop table rank tokens depth idxs (c, s, q))))"
  using assms(3-5)
proof (induction idxs arbitrary: c s q)
  case Nil
  then show ?case by simp
next
  case (Cons idx idxs)
  obtain c' s' q' where st: "candidates_loop table tokens depth idx
      (generate_word_variants rank (tokens ! idx)) (c, s, q) = (c', s', q')"
    by (cases "candidates_loop table tokens depth idx
          (generate_word_variants rank (tokens ! idx)) (c, s, q)") auto
  have "tokens ! idx \<in> set tokens" using Cons.prems(1) by simp
  then have "plain_token (tokens ! idx)" using assms(2) by (simp add: plain_tokens_def)
  then have cands: "\<forall>cand \<in> set (generate_word_variants rank (tokens ! idx)). plain_token cand"
    using variant_plain by blast
  have one: "search_inv table seeds c' \<and> plain_queue q'"
    using candidates_loop_inv [OF assms(1,2) cands Cons.prems(2,3), of depth idx s] st by simp
  have idxs: "\<forall>i \<in> set idxs. i < length tokens" using Cons.prems(1) by simp
  show ?case
    using one Cons.IH [OF idxs, of c' q' s'] st by (simp add: Let_def)
qed

lemma breadth_first_inv:
  "unidecode_ascii table \<Longrightarrow> search_inv table seeds (fst st) \<Longrightarrow> plain_queue (snd (snd st))
   \<Longrightarrow> search_inv table seeds (breadth_first table rank st)"
proof (induction table rank st rule: breadth_first.induct)
  case (1 table rank collected seen)
  then show ?case by simp
next
  case (2 table rank collected seen tokens depth queue)
  define st' where
    "st' = tokens_loop table rank tokens depth [0..<length tokens] (collected, seen, queue)"
  have pt: "plain_tokens tokens" and pq: "plain_queue queue"
    using "2.prems"(3) by (simp_all add: plain_queue_def)
  have inv: "search_inv table seeds (fst st') \<and> plain_queue (snd (snd st'))"
    unfolding st'_def
    using tokens_loop_inv [OF "2.prems"(1) pt _ _ pq, of "[0..<length tokens]" seeds collected]
      "2.prems"(2)
    by simp
  show ?case
  proof (cases "limit_guard \<le> length (fst st')")
    case True
    then show ?thesis using inv by (simp add: st'_def [symmetric] Let_def)
  next
    case False
    have "search_inv table seeds (breadth_first table rank st')"
      using "2.IH" [OF st'_def False "2.prems"(1)] inv by blast
    then show ?thesis using False by (simp add: st'_def [symmetric] Let_def)
  qed
qed

section \<open>The seeds of the search\<close>

lemma last_dropWhile: "dropWhile P xs \<noteq> [] \<Longrightarrow> last (dropWhile P xs) = last xs"
  by (induction xs) (auto split: if_splits)

lemma strip_chars_idem: "strip_chars P (strip_chars P s) = strip_chars P s"
proof (cases "strip_chars P s = []")
  case True
  have "strip_chars P [] = []" by (simp add: strip_chars_def)
  then show ?thesis by (simp only: True)
next
  case False
  define d where "d = dropWhile P s"
  define e where "e = dropWhile P (rev d)"
  have t: "strip_chars P s = rev e" by (simp add: strip_chars_def d_def e_def)
  have e: "e \<noteq> []" using False t by simp
  then have d: "d \<noteq> []" unfolding e_def by auto
  have "\<not> P (hd e)" unfolding e_def using e e_def hd_dropWhile by blast
  then have l: "\<not> P (last (rev e))" using e by (simp add: last_rev)
  have "last e = last (rev d)" unfolding e_def using e e_def last_dropWhile by blast
  also have "\<dots> = hd d" using d by (simp add: last_rev)
  finally have "last e = hd d" .
  moreover have "\<not> P (hd d)" unfolding d_def using d d_def hd_dropWhile by blast
  ultimately have h: "\<not> P (hd (rev e))" using e by (simp add: hd_rev)
  show ?thesis unfolding t using e h l by (intro strip_chars_id) simp_all
qed

lemma strip_idem: "strip (strip s) = strip s"
  by (simp add: strip_def strip_chars_idem)

lemma dropWhile_map_same:
  "(\<And>c. P (g c) \<longleftrightarrow> P c) \<Longrightarrow> dropWhile P (map g xs) = map g (dropWhile P xs)"
  by (induction xs) simp_all

lemma strip_chars_map:
  "(\<And>c. P (g c) \<longleftrightarrow> P c) \<Longrightarrow> strip_chars P (map g s) = map g (strip_chars P s)"
  by (simp add: strip_chars_def dropWhile_map_same rev_map)

lemma strip_lower: "strip (py_lower s) = py_lower (strip s)"
  unfolding strip_def py_lower_def by (rule strip_chars_map) (rule isspace_lower)






lemma normalize_unidecode:
  assumes "unidecode_ascii table"
  shows "normalize_text table (Some (unidecode table base)) = normalize_text table (Some base)"
proof (cases "unidecode table base = []")
  case True
  then show ?thesis by (cases "base = []") (simp_all add: normalize_text_Some normalize_text_Nil py_split_def)
next
  case False
  then have b: "base \<noteq> []" by (auto simp: unidecode_def)
  have "unidecode table (unidecode table base) = unidecode table base"
    using unidecode_id [OF assms] unidecode_is_ascii [OF assms] by blast
  then show ?thesis by (simp add: normalize_text_Some False b)
qed

section \<open>Variants of a search text\<close>

lemma levenshtein_eq_0: "levenshtein a b = 0 \<longleftrightarrow> a = b"
  by (induction a b rule: levenshtein.induct) auto

lemma expand_collected:
  "expand_search_text_variants table rank (Some text) =
     (if strip text = [] then []
      else take MAX_VARIANTS (map snd (sort
             (map (\<lambda>kv. (levenshtein (normalize_text table (Some (strip text))) (fst kv), snd kv))
                (collected_variants table rank (strip text))))))"
  by (simp add: expand_search_text_variants_def collected_variants_def Let_def case_prod_unfold)

lemma seeds_shape:
  assumes "unidecode_ascii table" "strip base = base"
  shows "add_variant table (add_variant table (add_variant table [] base) (py_lower base))
           (unidecode table base)
       = (if normalize_text table (Some base) = [] then []
          else [(normalize_text table (Some base), base)])
         @ (if normalize_text table (Some (py_lower base)) = []
               \<or> normalize_text table (Some (py_lower base)) = normalize_text table (Some base)
            then [] else [(normalize_text table (Some (py_lower base)), py_lower base)])"
proof -
  have sl: "strip (py_lower base) = py_lower base" using assms(2) by (simp add: strip_lower)
  have nu: "normalize_text table (Some (unidecode table base)) = normalize_text table (Some base)"
    using normalize_unidecode [OF assms(1)] .
  show ?thesis
    by (simp add: add_variant_def Let_def assms(2) sl nu)
qed

lemma seeds_inv:
  assumes "unidecode_ascii table" "strip base = base"
  defines "seeds \<equiv> add_variant table
      (add_variant table (add_variant table [] base) (py_lower base)) (unidecode table base)"
  shows "distinct (map fst seeds)"
    and "\<forall>kv \<in> set seeds. normalize_text table (Some (snd kv)) = fst kv"
    and "normalize_text table (Some base) \<noteq> [] \<longrightarrow> (normalize_text table (Some base), base) \<in> set seeds"
    and "normalize_text table (Some (py_lower base)) = normalize_text table (Some base)
           \<longrightarrow> set seeds \<subseteq> {(normalize_text table (Some base), base)}"
    and "\<forall>kv \<in> set seeds. snd kv = base \<or> snd kv = py_lower base"
proof -
  note S = seeds_shape [OF assms(1,2), folded seeds_def]
  show "distinct (map fst seeds)" unfolding S by auto
  show "\<forall>kv \<in> set seeds. normalize_text table (Some (snd kv)) = fst kv" unfolding S by auto
  show "normalize_text table (Some base) \<noteq> [] \<longrightarrow> (normalize_text table (Some base), base) \<in> set seeds"
    unfolding S by auto
  show "normalize_text table (Some (py_lower base)) = normalize_text table (Some base)
           \<longrightarrow> set seeds \<subseteq> {(normalize_text table (Some base), base)}"
    unfolding S by auto
  show "\<forall>kv \<in> set seeds. snd kv = base \<or> snd kv = py_lower base"
    unfolding S by auto
qed

lemma collected_variants_inv:
  assumes "unidecode_ascii table" "strip base = base" "base \<noteq> []"
  shows "search_inv table
      (add_variant table (add_variant table (add_variant table [] base) (py_lower base))
         (unidecode table base))
      (collected_variants table rank base)"
proof -
  define seeds where "seeds = add_variant table
      (add_variant table (add_variant table [] base) (py_lower base)) (unidecode table base)"
  define T where "T = py_split (normalize_text table (Some base))"
  have d: "distinct (map fst seeds)" unfolding seeds_def using seeds_inv(1) [OF assms(1,2)] .
  have inv0: "search_inv table seeds seeds" using d by (simp add: search_inv_def)
  show ?thesis
  proof (cases "T = []")
    case True
    then show ?thesis
      using inv0 by (simp add: collected_variants_def Let_def T_def seeds_def)
  next
    case False
    have "T = py_split (map fold_char (unidecode table base))"
      unfolding T_def using normalized_tokens [OF assms(1,3)] .
    then have "\<forall>t \<in> set T. plain_token t" using base_tokens_plain [OF assms(1)] by simp
    then have q: "plain_queue [(T, 0)]" using False by (simp add: plain_queue_def plain_tokens_def)
    have "search_inv table seeds (breadth_first table rank (seeds, [join_space T], [(T, 0)]))"
      using breadth_first_inv [OF assms(1), of seeds "(seeds, [join_space T], [(T, 0)])" rank]
        inv0 q by simp
    then show ?thesis
      using False by (simp add: collected_variants_def Let_def T_def seeds_def)
  qed
qed

lemma collected_variants_props:
  assumes "unidecode_ascii table" "strip base = base" "base \<noteq> []"
  shows "distinct (map fst (collected_variants table rank base))"
    and "\<forall>kv \<in> set (collected_variants table rank base).
           normalize_text table (Some (snd kv)) = fst kv"
    and "normalize_text table (Some base) \<noteq> [] \<longrightarrow>
           (normalize_text table (Some base), base) \<in> set (collected_variants table rank base)"
    and "normalize_text table (Some (py_lower base)) = normalize_text table (Some base) \<longrightarrow>
           (\<forall>kv \<in> set (collected_variants table rank base).
              kv = (normalize_text table (Some base), base) \<or> snd kv = fst kv)"
    and "\<forall>kv \<in> set (collected_variants table rank base).
           snd kv = base \<or> snd kv = py_lower base
           \<or> normalize_text table (Some (snd kv)) = snd kv"
proof -
  define seeds where "seeds = add_variant table
      (add_variant table (add_variant table [] base) (py_lower base)) (unidecode table base)"
  note I = collected_variants_inv [OF assms, of rank, folded seeds_def]
  note S = seeds_inv [OF assms(1,2), folded seeds_def]
  from I obtain added where d: "distinct (map fst (collected_variants table rank base))"
    and c: "collected_variants table rank base = seeds @ added"
    and a: "\<forall>kv \<in> set added. snd kv = fst kv \<and> normalize_text table (Some (fst kv)) = fst kv"
    unfolding search_inv_def by blast
  show "distinct (map fst (collected_variants table rank base))" by (rule d)
  show "\<forall>kv \<in> set (collected_variants table rank base).
           normalize_text table (Some (snd kv)) = fst kv"
    unfolding c using S(2) a by auto
  show "normalize_text table (Some base) \<noteq> [] \<longrightarrow>
           (normalize_text table (Some base), base) \<in> set (collected_variants table rank base)"
    unfolding c using S(3) by auto
  show "normalize_text table (Some (py_lower base)) = normalize_text table (Some base) \<longrightarrow>
           (\<forall>kv \<in> set (collected_variants table rank base).
              kv = (normalize_text table (Some base), base) \<or> snd kv = fst kv)"
    unfolding c using S(4) a by auto
  show "\<forall>kv \<in> set (collected_variants table rank base).
           snd kv = base \<or> snd kv = py_lower base
           \<or> normalize_text table (Some (snd kv)) = snd kv"
    unfolding c using S(5) a by auto
qed

lemma distinct_map_insort:
  "distinct (map g (insort_key f x xs)) \<longleftrightarrow> g x \<notin> g ` set xs \<and> distinct (map g xs)"
  by (induction xs) (auto simp: set_insort_key)

lemma distinct_map_sort: "distinct (map g (sort_key f xs)) \<longleftrightarrow> distinct (map g xs)"
  by (induction xs) (simp_all add: distinct_map_insort)


lemma hd_sorted_least:
  assumes "sorted xs" "x \<in> set xs" "\<forall>y \<in> set xs. x \<le> y"
  shows "hd xs = x"
proof (cases xs)
  case Nil
  then show ?thesis using assms(2) by simp
next
  case (Cons a as)
  then have "a \<le> x" using assms(1,2) by auto
  moreover have "x \<le> a" using assms(3) Cons by simp
  ultimately show ?thesis using Cons by simp
qed


lemma scored_entry:
  assumes "x \<in> set (sort (map (\<lambda>kv. (levenshtein nb (fst kv), snd kv)) collected))"
  shows "\<exists>kv \<in> set collected. x = (levenshtein nb (fst kv), snd kv)"
  using assms by auto

lemma ascii_table_ok: "unidecode_ascii ascii_table"
  by (auto simp: unidecode_ascii_def ascii_table_def is_ascii_def)


text \<open>
  C3, as the code has it. With a transliteration table that keeps ASCII and writes ASCII,
  and whatever the iteration order of the sets: the expansion of a phrase has at most 5
  variants, no two of them have the same normalised text, and where the normalised text
  of the stripped phrase is not empty, the stripped phrase is one of them.
\<close>

theorem expand_variants_distinct:
  assumes "unidecode_ascii table"
  shows "length (expand_search_text_variants table rank phrase) \<le> 5
    \<and> distinct (map (\<lambda>v. normalize_text table (Some v))
          (expand_search_text_variants table rank phrase))
    \<and> (\<forall>text. phrase = Some text \<and> normalize_text table (Some (strip text)) \<noteq> []
          \<longrightarrow> strip text \<in> set (expand_search_text_variants table rank phrase))"
proof (cases phrase)
  case None
  then show ?thesis by (simp add: expand_search_text_variants_def)
next
  case (Some s)
  show ?thesis
  proof (cases "strip s = []")
    case True
    then show ?thesis using Some by (simp add: expand_collected normalize_text_Nil)
  next
    case False
    define base where "base = strip s"
    define nb where "nb = normalize_text table (Some base)"
    define C where "C = collected_variants table rank base"
    define S where "S = sort (map (\<lambda>kv. (levenshtein nb (fst kv), snd kv)) C)"
    have sb: "strip base = base" by (simp add: base_def strip_idem)
    have bne: "base \<noteq> []" using False by (simp add: base_def)
    note P = collected_variants_props [OF assms sb bne, of rank, folded C_def nb_def]
    have E: "expand_search_text_variants table rank phrase = take MAX_VARIANTS (map snd S)"
      using Some False by (simp add: expand_collected S_def C_def nb_def base_def)
    have len: "length (expand_search_text_variants table rank phrase) \<le> 5"
      by (simp add: E MAX_VARIANTS_def)
    have eqm: "map (\<lambda>v. normalize_text table (Some v)) (map snd C) = map fst C"
      using P(2) by (simp add: comp_def)
    have "distinct (map (\<lambda>v. normalize_text table (Some v)) (map snd C))"
      unfolding eqm by (rule P(1))
    then have "distinct (map (\<lambda>x. normalize_text table (Some (snd x)))
        (map (\<lambda>kv. (levenshtein nb (fst kv), snd kv)) C))"
      by (simp add: comp_def)
    then have "distinct (map (\<lambda>x. normalize_text table (Some (snd x))) S)"
      unfolding S_def by (simp only: distinct_map_sort)
    then have "distinct (map (\<lambda>v. normalize_text table (Some v)) (map snd S))"
      by (simp add: comp_def)
    then have dist: "distinct (map (\<lambda>v. normalize_text table (Some v))
          (expand_search_text_variants table rank phrase))"
      unfolding E by (simp add: take_map [symmetric] del: take_map)
    have mem: "base \<in> set (expand_search_text_variants table rank phrase)" if ne: "nb \<noteq> []"
    proof -
      have in_C: "(nb, base) \<in> set C" using P(3) ne by blast
      then have in_S: "(0, base) \<in> set S"
        unfolding S_def using levenshtein_eq_0 [of nb nb] by force
      have least: "(0, base) \<le> y" if "y \<in> set S" for y
      proof -
        from that obtain kv where kv: "kv \<in> set C" "y = (levenshtein nb (fst kv), snd kv)"
          unfolding S_def using scored_entry by blast
        show ?thesis
        proof (cases "fst kv = nb")
          case True
          then have "kv = (nb, base)"
            using kv(1) in_C P(1) by (metis eq_key_imp_eq_value prod.collapse)
          then show ?thesis using kv(2) levenshtein_eq_0 [of nb nb] by simp
        next
          case False
          then have "0 < levenshtein nb (fst kv)" using levenshtein_eq_0 [of nb "fst kv"] by auto
          then show ?thesis using kv(2) by (simp add: less_eq_prod_def)
        qed
      qed
      have "hd S = (0, base)"
        using in_S least by (intro hd_sorted_least) (simp_all add: S_def)
      moreover have "S \<noteq> []" using in_S by auto
      ultimately have "hd (take MAX_VARIANTS (map snd S)) = base"
        by (simp add: MAX_VARIANTS_def hd_map)
      moreover have "take MAX_VARIANTS (map snd S) \<noteq> []"
        using \<open>S \<noteq> []\<close> by (simp add: MAX_VARIANTS_def)
      ultimately show ?thesis unfolding E by (metis hd_in_set)
    qed
    show ?thesis using len dist mem Some by (auto simp: base_def nb_def)
  qed
qed

text \<open>The statement for the phrase \<open>ab\<close>.\<close>

theorem expand_variants_distinct_witness:
  "unidecode_ascii ascii_table
   \<and> normalize_text ascii_table (Some (strip ''ab'')) = ''ab''
   \<and> expand_search_text_variants ascii_table insertion_order (Some ''ab'')
       = [''ab'', ''av'', ''aw'', ''ba'', ''va'']
   \<and> map (\<lambda>v. normalize_text ascii_table (Some v)) [''ab'', ''av'', ''aw'', ''ba'', ''va'']
       = [''ab'', ''av'', ''aw'', ''ba'', ''va'']"
proof -
  have n: "normalize_text ascii_table (Some (strip ''ab'')) = ''ab''"
    by code_simp
  have e: "expand_search_text_variants ascii_table insertion_order (Some ''ab'')
      = [''ab'', ''av'', ''aw'', ''ba'', ''va'']"
    by code_simp
  have m: "map (\<lambda>v. normalize_text ascii_table (Some v)) [''ab'', ''av'', ''aw'', ''ba'', ''va'']
      = [''ab'', ''av'', ''aw'', ''ba'', ''va'']"
    by code_simp
  show ?thesis
    using expand_variants_distinct [OF ascii_table_ok, of insertion_order "Some ''ab''"]
      ascii_table_ok n e m
    by simp
qed

text \<open>
  C3 as the specification words it fails: the phrase \<open>&\<close> is not empty, its normalised
  text is, and its expansion has no variant at all.
\<close>

theorem expand_variants_distinct_counterexample:
  "strip ''&'' = ''&''
   \<and> normalize_text ascii_table (Some ''&'') = []
   \<and> expand_search_text_variants ascii_table insertion_order (Some ''&'') = []"
proof -
  have a: "strip ''&'' = ''&''" by code_simp
  have b: "normalize_text ascii_table (Some ''&'') = []" by code_simp
  have c: "expand_search_text_variants ascii_table insertion_order (Some ''&'') = []"
    by code_simp
  show ?thesis using a b c by simp
qed



end
